theory Spec2Isabelle
  imports Main "HOL-Library.AList" "HOL-Library.Multiset" "HOL-Library.Code_Target_Numeral"
begin

section \<open>JavaScript strings\<close>

text \<open>
  A JavaScript string is modelled as a \<^typ>\<open>string\<close>: a list of code units, every code unit
  below 256. The functions of this section are the built-in string and array methods that
  \<^verbatim>\<open>server.js\<close> and \<^verbatim>\<open>dns-update.js\<close> call, written out for a one-character separator.
\<close>

text \<open>\<^verbatim>\<open>s.split(c)\<close>: never empty, \<^verbatim>\<open>"".split(c)\<close> is \<^verbatim>\<open>[""]\<close>.\<close>

fun split :: "char \<Rightarrow> string \<Rightarrow> string list" where
  "split c [] = [[]]"
| "split c (x # xs) =
     (if x = c then [] # split c xs
      else (let r = split c xs in (x # hd r) # tl r))"

text \<open>\<^verbatim>\<open>xs.join(sep)\<close>.\<close>

fun join :: "string \<Rightarrow> string list \<Rightarrow> string" where
  "join sep [] = []"
| "join sep [x] = x"
| "join sep (x # y # ys) = x @ sep @ join sep (y # ys)"

text \<open>
  \<^verbatim>\<open>xs.slice(-2)\<close> and \<^verbatim>\<open>xs.slice(0, -2)\<close>: a negative index counts from the end and is
  clamped at 0, which is what the truncating subtraction of \<^typ>\<open>nat\<close> computes.
\<close>

definition slice_last2 :: "'a list \<Rightarrow> 'a list" where
  "slice_last2 xs = drop (length xs - 2) xs"

definition slice_but_last2 :: "'a list \<Rightarrow> 'a list" where
  "slice_but_last2 xs = take (length xs - 2) xs"

section \<open>The domain parser (\<^verbatim>\<open>server.js\<close>, \<^verbatim>\<open>parseDomainParts\<close>)\<close>

text \<open>The result \<^verbatim>\<open>{ topDomain, subdomain }\<close> is the pair of the two strings. The empty
  string is falsy, so \<^verbatim>\<open>join('.') || '@'\<close> yields \<^verbatim>\<open>'@'\<close> for it.\<close>

definition parseDomainParts :: "string \<Rightarrow> string \<times> string" where
  "parseDomainParts name =
     (let domainParts = split (CHR ''.'') name;
          topDomain = join ''.'' (slice_last2 domainParts);
          subdomain = join ''.'' (slice_but_last2 domainParts)
      in (topDomain, if subdomain = [] then ''@'' else subdomain))"

section \<open>JavaScript values\<close>

text \<open>
  The stored blob is decoded by \<^verbatim>\<open>JSON.parse\<close> and read without any validation, so the read and
  write paths work on untyped values. \<^term>\<open>Undefined\<close> is the result of reading a property that
  does not exist, \<^term>\<open>NaN\<close> the result of \<^verbatim>\<open>parseInt\<close> on a string with no digits. Numbers
  are the integers (the only numbers the writer stores); an object is the list of its own
  properties. \<^term>\<open>Native\<close> stands for a built-in function or object reached through the
  prototype chain. It is truthy and has no property named \<^verbatim>\<open>A\<close>, \<^verbatim>\<open>CNAME\<close> or \<^verbatim>\<open>MX\<close>,
  the only ones the program ever reads from such a value.
\<close>

datatype js =
    Undefined
  | Null
  | Bool bool
  | Num int
  | NaN
  | Str string
  | Arr "js list"
  | Obj "(string \<times> js) list"
  | Native

datatype exn = TypeError | SyntaxError | StoreError | Unmodelled

fun truthy :: "js \<Rightarrow> bool" where
  "truthy Undefined = False"
| "truthy Null = False"
| "truthy (Bool b) = b"
| "truthy (Num n) = (n \<noteq> 0)"
| "truthy NaN = False"
| "truthy (Str s) = (s \<noteq> [])"
| "truthy (Arr xs) = True"
| "truthy (Obj kvs) = True"
| "truthy Native = True"

text \<open>A property key is an array index when it is the canonical decimal form of a number.\<close>

definition is_digit :: "char \<Rightarrow> bool" where
  "is_digit c = (c \<in> set ''0123456789'')"

definition digit_val :: "char \<Rightarrow> nat" where
  "digit_val c = of_char c - 48"

definition digits_val :: "string \<Rightarrow> nat" where
  "digits_val ds = foldl (\<lambda>acc c. 10 * acc + digit_val c) 0 ds"

definition array_index :: "string \<Rightarrow> nat option" where
  "array_index k =
     (if k \<noteq> [] \<and> list_all is_digit k \<and> (k = ''0'' \<or> hd k \<noteq> CHR ''0'')
      then Some (digits_val k) else None)"

text \<open>The own properties of a value: the entries of an object, the elements and the length
  of an array or a string.\<close>

fun own_prop :: "js \<Rightarrow> string \<Rightarrow> js option" where
  "own_prop (Obj kvs) k = map_of kvs k"
| "own_prop (Arr xs) k =
     (if k = ''length'' then Some (Num (int (length xs)))
      else (case array_index k of
              Some i \<Rightarrow> (if i < length xs then Some (xs ! i) else None)
            | None \<Rightarrow> None))"
| "own_prop (Str s) k =
     (if k = ''length'' then Some (Num (int (length s)))
      else (case array_index k of
              Some i \<Rightarrow> (if i < length s then Some (Str [s ! i]) else None)
            | None \<Rightarrow> None))"
| "own_prop v k = None"

text \<open>
  The property names every value inherits from \<^verbatim>\<open>Object.prototype\<close>. The further methods
  that arrays, strings, numbers and booleans inherit from their own prototypes are not
  modelled; a decoded record set is an object.
\<close>

definition object_prototype_names :: "string list" where
  "object_prototype_names =
     [''constructor'', ''__defineGetter__'', ''__defineSetter__'', ''hasOwnProperty'',
      ''__lookupGetter__'', ''__lookupSetter__'', ''isPrototypeOf'', ''propertyIsEnumerable'',
      ''toString'', ''valueOf'', ''__proto__'', ''toLocaleString'']"

text \<open>\<^verbatim>\<open>v[k]\<close>: a TypeError on \<^verbatim>\<open>undefined\<close> and \<^verbatim>\<open>null\<close>, an own property first, then the
  prototype, else \<^verbatim>\<open>undefined\<close>.\<close>

definition get_prop :: "js \<Rightarrow> string \<Rightarrow> exn + js" where
  "get_prop v k =
     (if v = Undefined \<or> v = Null then Inl TypeError
      else (case own_prop v k of
              Some x \<Rightarrow> Inr x
            | None \<Rightarrow> if k \<in> set object_prototype_names then Inr Native else Inr Undefined))"

text \<open>
  The template literals passed to \<^verbatim>\<open>console.log\<close> convert a value to a string, which
  raises a TypeError for an object that has an own property \<^verbatim>\<open>toString\<close> (decoded from
  JSON, so not callable) and for an array that holds such an object. Nothing else of the
  logging is modelled.
\<close>

fun to_string_ok :: "js \<Rightarrow> bool" where
  "to_string_ok (Obj kvs) = (''toString'' \<notin> set (map fst kvs))"
| "to_string_ok (Arr xs) = list_all to_string_ok xs"
| "to_string_ok v = True"

section \<open>The response (\<^verbatim>\<open>server.js\<close>, \<^verbatim>\<open>addRecord\<close> and \<^verbatim>\<open>addRecordsToResponse\<close>)\<close>

text \<open>The numeric codes of \<^verbatim>\<open>Packet.TYPE\<close> and \<^verbatim>\<open>Packet.CLASS\<close>.\<close>

definition TYPE_A :: nat where "TYPE_A = 1"
definition TYPE_CNAME :: nat where "TYPE_CNAME = 5"
definition TYPE_MX :: nat where "TYPE_MX = 15"
definition CLASS_IN :: nat where "CLASS_IN = 1"

text \<open>The type-specific fields that \<^verbatim>\<open>...record\<close> spreads into an answer.\<close>

datatype rdata =
    Address js
  | Domain js
  | Exchange js js  \<comment> \<open>priority, exchange\<close>

record answer =
  ans_name :: string
  ans_type :: nat
  ans_class :: nat
  ans_ttl :: nat
  ans_rdata :: rdata

text \<open>\<^verbatim>\<open>response.answers.push(...)\<close>: the response is passed through and returned extended.\<close>

definition addRecord :: "answer list \<Rightarrow> string \<Rightarrow> nat \<Rightarrow> rdata \<Rightarrow> answer list" where
  "addRecord response name type record =
     response @ [\<lparr> ans_name = name, ans_type = type, ans_class = CLASS_IN, ans_ttl = 300,
                   ans_rdata = record \<rparr>]"

text \<open>
  The two \<^verbatim>\<open>forEach\<close> loops. An exception leaves the loop with the answers pushed so far,
  so every function of the read path returns the response together with its result.
\<close>

fun forEach_A :: "answer list \<Rightarrow> string \<Rightarrow> js list \<Rightarrow> answer list \<times> (exn + unit)" where
  "forEach_A response name [] = (response, Inr ())"
| "forEach_A response name (ip # ips) =
     (if to_string_ok ip
      then forEach_A (addRecord response name TYPE_A (Address ip)) name ips
      else (response, Inl TypeError))"

fun forEach_MX :: "answer list \<Rightarrow> string \<Rightarrow> js list \<Rightarrow> answer list \<times> (exn + unit)" where
  "forEach_MX response name [] = (response, Inr ())"
| "forEach_MX response name (mx # mxs) =
     (case get_prop mx ''exchange'' of
        Inl e \<Rightarrow> (response, Inl e)
      | Inr ex \<Rightarrow>
          if \<not> to_string_ok ex then (response, Inl TypeError)
          else (case get_prop mx ''priority'' of
                  Inl e \<Rightarrow> (response, Inl e)
                | Inr pr \<Rightarrow>
                    if \<not> to_string_ok pr then (response, Inl TypeError)
                    else forEach_MX (addRecord response name TYPE_MX (Exchange pr ex)) name mxs))"

text \<open>The \<^verbatim>\<open>CNAME\<close> branch, which the cases \<^verbatim>\<open>A\<close> and \<^verbatim>\<open>CNAME\<close> of the switch share word
  for word: only \<^verbatim>\<open>recordSet.CNAME[0]\<close> is read.\<close>

definition addCNAME :: "answer list \<Rightarrow> string \<Rightarrow> js \<Rightarrow> answer list \<times> (exn + bool)" where
  "addCNAME response name cname =
     (case get_prop cname ''0'' of
        Inl e \<Rightarrow> (response, Inl e)
      | Inr c0 \<Rightarrow>
          if \<not> to_string_ok c0 then (response, Inl TypeError)
          else (addRecord response name TYPE_CNAME (Domain c0), Inr True))"

definition addRecordsToResponse ::
  "answer list \<Rightarrow> string \<Rightarrow> js \<Rightarrow> nat \<Rightarrow> answer list \<times> (exn + bool)" where
  "addRecordsToResponse response name recordSet type =
     (if type = TYPE_A then
        (case get_prop recordSet ''A'' of
           Inl e \<Rightarrow> (response, Inl e)
         | Inr a \<Rightarrow>
             if truthy a then
               (case a of
                  Arr ips \<Rightarrow>
                    (case forEach_A response name ips of
                       (response', Inl e) \<Rightarrow> (response', Inl e)
                     | (response', Inr _) \<Rightarrow> (response', Inr True))
                | _ \<Rightarrow> (response, Inl TypeError))
             else
               (case get_prop recordSet ''CNAME'' of
                  Inl e \<Rightarrow> (response, Inl e)
                | Inr cname \<Rightarrow>
                    if truthy cname then addCNAME response name cname
                    else (response, Inr False)))
      else if type = TYPE_CNAME then
        (case get_prop recordSet ''CNAME'' of
           Inl e \<Rightarrow> (response, Inl e)
         | Inr cname \<Rightarrow>
             if truthy cname then addCNAME response name cname
             else (response, Inr False))
      else if type = TYPE_MX then
        (case get_prop recordSet ''MX'' of
           Inl e \<Rightarrow> (response, Inl e)
         | Inr mx \<Rightarrow>
             (case (if truthy mx then mx else Arr []) of
                Arr mxRecords \<Rightarrow>
                  (case forEach_MX response name mxRecords of
                     (response', Inl e) \<Rightarrow> (response', Inl e)
                   | (response', Inr _) \<Rightarrow> (response', Inr (length mxRecords > 0)))
              | _ \<Rightarrow> (response, Inl TypeError)))
      else (response, Inr False))"

section \<open>The store lookup (\<^verbatim>\<open>server.js\<close>, \<^verbatim>\<open>lookupDnsRecords\<close>)\<close>

text \<open>
  A customer of the external store, with its string-valued metadata. The store
  (\<^verbatim>\<open>stripe.customers.list\<close>, called with the email \<^verbatim>\<open>dns@domain\<close>) and the decoder
  (\<^verbatim>\<open>JSON.parse\<close>) are parameters of the read path: either may raise.
\<close>

record customer =
  cust_id :: string
  metadata :: "(string \<times> string) list"

type_synonym store = "string \<Rightarrow> exn + customer list"
type_synonym decoder = "string \<Rightarrow> exn + js"

text \<open>Lines 83 to 91: the exact label, then the wildcard unless the label is \<^verbatim>\<open>@\<close>, and
  \<^verbatim>\<open>null\<close> for whatever is falsy.\<close>

definition resolveLabel :: "js \<Rightarrow> string \<Rightarrow> exn + js" where
  "resolveLabel dnsRecords subdomain =
     (case get_prop dnsRecords subdomain of
        Inl e \<Rightarrow> Inl e
      | Inr recordSet \<Rightarrow>
          (case (if \<not> truthy recordSet \<and> subdomain \<noteq> ''@''
                 then get_prop dnsRecords ''*'' else Inr recordSet) of
             Inl e \<Rightarrow> Inl e
           | Inr recordSet' \<Rightarrow> Inr (if truthy recordSet' then recordSet' else Null)))"

text \<open>\<^verbatim>\<open>customer.metadata.dns_records || '{}'\<close>: a missing or empty field is decoded as
  \<^verbatim>\<open>{}\<close>.\<close>

definition dns_records_or_empty :: "customer \<Rightarrow> string" where
  "dns_records_or_empty c =
     (case map_of (metadata c) ''dns_records'' of
        None \<Rightarrow> ''{}''
      | Some blob \<Rightarrow> if blob = [] then ''{}'' else blob)"

text \<open>Both \<^verbatim>\<open>try\<close> blocks end in \<^verbatim>\<open>return null\<close>, so the function never raises.\<close>

definition lookupDnsRecords :: "store \<Rightarrow> decoder \<Rightarrow> string \<Rightarrow> string \<Rightarrow> js" where
  "lookupDnsRecords stripe JSON_parse domain subdomain =
     (case stripe (''dns@'' @ domain) of
        Inl error \<Rightarrow> Null
      | Inr customers \<Rightarrow>
          if length customers = 0 then Null
          else (case JSON_parse (dns_records_or_empty (hd customers)) of
                  Inl e \<Rightarrow> Null
                | Inr dnsRecords \<Rightarrow>
                    (case resolveLabel dnsRecords subdomain of
                       Inl e \<Rightarrow> Null
                     | Inr recordSet \<Rightarrow> recordSet)))"

section \<open>The request handler (\<^verbatim>\<open>server.js\<close>, \<^verbatim>\<open>_handleRequest\<close>)\<close>

definition fallback :: "string \<Rightarrow> answer" where
  "fallback name =
     \<lparr> ans_name = name, ans_type = TYPE_A, ans_class = CLASS_IN, ans_ttl = 300,
       ans_rdata = Address (Str ''127.0.0.1'') \<rparr>"

text \<open>The answers of the response sent for the first question \<^verbatim>\<open>(name, type)\<close> of the
  request. The response starts with no answers; the \<^verbatim>\<open>catch\<close> block pushes the fallback
  onto whatever the \<^verbatim>\<open>try\<close> block had pushed before it raised.\<close>

definition handleRequest :: "store \<Rightarrow> decoder \<Rightarrow> string \<Rightarrow> nat \<Rightarrow> answer list" where
  "handleRequest stripe JSON_parse name type =
     (let (topDomain, subdomain) = parseDomainParts name;
          recordSet = lookupDnsRecords stripe JSON_parse topDomain subdomain
      in if truthy recordSet then
           (case addRecordsToResponse [] name recordSet type of
              (response, Inl error) \<Rightarrow> response @ [fallback name]
            | (response, Inr found) \<Rightarrow> response)
         else [])"

section \<open>Property writes\<close>

text \<open>
  \<^verbatim>\<open>v[k] = x\<close> in a script that is not in strict mode, returning the receiver as it is
  after the write. A write to \<^verbatim>\<open>undefined\<close> or \<^verbatim>\<open>null\<close> raises a TypeError; a write to any
  other primitive is ignored. On an object the write sets an own property, except for the
  key \<^verbatim>\<open>__proto__\<close> when it is not an own property: that write goes to the setter
  inherited from \<^verbatim>\<open>Object.prototype\<close>, which leaves the own properties as they are. A write
  to \<^term>\<open>Native\<close> changes a built-in object and no value of the program. On an array,
  only the write to an existing element is modelled: a write that extends the array, sets
  its length or adds a named property is answered by \<^term>\<open>Unmodelled\<close> (a record set and
  its type records are objects, never arrays).
\<close>

fun set_prop :: "js \<Rightarrow> string \<Rightarrow> js \<Rightarrow> exn + js" where
  "set_prop Undefined k x = Inl TypeError"
| "set_prop Null k x = Inl TypeError"
| "set_prop (Obj kvs) k x =
     (if k = ''__proto__'' \<and> map_of kvs k = None then Inr (Obj kvs)
      else Inr (Obj (AList.update k x kvs)))"
| "set_prop (Arr xs) k x =
     (case array_index k of
        Some i \<Rightarrow> if i < length xs then Inr (Arr (xs[i := x])) else Inl Unmodelled
      | None \<Rightarrow> Inl Unmodelled)"
| "set_prop v k x = Inr v"

text \<open>Objects and arrays are held by reference, everything else by value.\<close>

fun is_reference :: "js \<Rightarrow> bool" where
  "is_reference (Obj kvs) = True"
| "is_reference (Arr xs) = True"
| "is_reference v = False"

section \<open>More string methods\<close>

text \<open>The white space of \<^verbatim>\<open>trim\<close> among the code units below 256: tab, line feed, vertical
  tab, form feed, carriage return, space and no-break space.\<close>

definition is_whitespace :: "char \<Rightarrow> bool" where
  "is_whitespace c = (of_char c \<in> set [9, 10, 11, 12, 13, 32, 160 :: nat])"

definition trimStart :: "string \<Rightarrow> string" where
  "trimStart s = dropWhile is_whitespace s"

definition trim :: "string \<Rightarrow> string" where
  "trim s = rev (dropWhile is_whitespace (rev (dropWhile is_whitespace s)))"

definition endsWith_dot :: "string \<Rightarrow> bool" where
  "endsWith_dot s = (s \<noteq> [] \<and> last s = CHR ''.'')"

text \<open>
  \<^verbatim>\<open>parseInt(s, 10)\<close>: leading white space is skipped, one sign is read, then the longest
  run of decimal digits; \<^verbatim>\<open>NaN\<close> when that run is empty. The result is the exact integer,
  which is the result of the runtime up to \<open>2\<^sup>5\<^sup>3\<close> in magnitude; the rounding of larger
  integers to a double is not modelled, and the theorems about priorities are stated for
  integers within that range.
\<close>

definition parseInt :: "string \<Rightarrow> js" where
  "parseInt s =
     (let t = trimStart s;
          negative = (t \<noteq> [] \<and> hd t = CHR ''-'');
          u = (if t \<noteq> [] \<and> (hd t = CHR ''+'' \<or> hd t = CHR ''-'') then tl t else t);
          ds = takeWhile is_digit u
      in if ds = [] then NaN
         else Num (if negative then - int (digits_val ds) else int (digits_val ds)))"

section \<open>The record writer (\<^verbatim>\<open>dns-update.js\<close>, \<^verbatim>\<open>updateDNSRecord\<close>)\<close>

text \<open>
  Lines 48 to 54, the callback of \<^verbatim>\<open>map\<close> for the type \<^verbatim>\<open>MX\<close>. The destructuring
  \<^verbatim>\<open>[priority, exchange] = v.trim().split(' ')\<close> takes the first two pieces; with a single
  piece \<^verbatim>\<open>exchange\<close> is \<^verbatim>\<open>undefined\<close> and \<^verbatim>\<open>exchange.endsWith\<close> raises a TypeError.
\<close>

definition formatMX :: "string \<Rightarrow> exn + js" where
  "formatMX v =
     (let parts = split (CHR '' '') (trim v);
          priority = hd parts
      in case tl parts of
           [] \<Rightarrow> Inl TypeError
         | exchange # _ \<Rightarrow>
             Inr (Obj [(''priority'', parseInt priority),
                       (''exchange'', Str (if endsWith_dot exchange then exchange
                                            else exchange @ ''.''))]))"

text \<open>\<^verbatim>\<open>xs.map(f)\<close> for a callback that may raise: the first exception ends the loop.\<close>

fun map_raising :: "('a \<Rightarrow> exn + 'b) \<Rightarrow> 'a list \<Rightarrow> exn + 'b list" where
  "map_raising f [] = Inr []"
| "map_raising f (x # xs) =
     (case f x of
        Inl e \<Rightarrow> Inl e
      | Inr y \<Rightarrow> (case map_raising f xs of Inl e \<Rightarrow> Inl e | Inr ys \<Rightarrow> Inr (y # ys)))"

text \<open>Lines 42 to 55: \<^verbatim>\<open>formattedValue\<close>, which stays \<^verbatim>\<open>undefined\<close> for any other type.\<close>

definition formatValue :: "string \<Rightarrow> string \<Rightarrow> exn + js" where
  "formatValue recordType value =
     (if recordType = ''A'' \<or> recordType = ''CNAME'' then
        Inr (Arr (map (\<lambda>v. Str (trim v)) (split (CHR '','') value)))
      else if recordType = ''MX'' then
        (case map_raising formatMX (split (CHR '','') value) of
           Inl e \<Rightarrow> Inl e
         | Inr mxs \<Rightarrow> Inr (Arr mxs))
      else Inr Undefined)"

text \<open>
  Lines 57 to 61. \<^verbatim>\<open>dnsRecords[sub][recordType] = formattedValue\<close> changes \<^verbatim>\<open>dnsRecords\<close>
  only when \<^verbatim>\<open>dnsRecords[sub]\<close> is an object or array held by \<^verbatim>\<open>dnsRecords\<close> itself.
\<close>

definition mergeRecord :: "js \<Rightarrow> string \<Rightarrow> string \<Rightarrow> js \<Rightarrow> exn + js" where
  "mergeRecord dnsRecords sub recordType formattedValue =
     (case get_prop dnsRecords sub of
        Inl e \<Rightarrow> Inl e
      | Inr existing \<Rightarrow>
          (case (if \<not> truthy existing then set_prop dnsRecords sub (Obj []) else Inr dnsRecords) of
             Inl e \<Rightarrow> Inl e
           | Inr dnsRecords1 \<Rightarrow>
               (case get_prop dnsRecords1 sub of
                  Inl e \<Rightarrow> Inl e
                | Inr target \<Rightarrow>
                    (case set_prop target recordType formattedValue of
                       Inl e \<Rightarrow> Inl e
                     | Inr target' \<Rightarrow>
                         if is_reference target then set_prop dnsRecords1 sub target'
                         else Inr dnsRecords1))))"

text \<open>
  The calls that change the external store. \<^verbatim>\<open>updateDNSRecord\<close> returns the calls it made
  and the error that ended it early, if any; what the final call \<^verbatim>\<open>customers.update\<close>
  answers is only logged and is not modelled. The functions of the store that return a
  value (\<^verbatim>\<open>customers.list\<close>, \<^verbatim>\<open>customers.create\<close>), the decoder and the encoder
  (\<^verbatim>\<open>JSON.stringify\<close>) are parameters. The encoder yields a text or \<^verbatim>\<open>undefined\<close>, so a
  metadata field of the update holds a text or nothing.
\<close>

datatype store_call =
    Create string string  \<comment> \<open>email, name\<close>
  | Update string "(string \<times> string option) list"  \<comment> \<open>customer id, metadata\<close>

type_synonym encoder = "js \<Rightarrow> string option"

definition updateDNSRecord ::
  "store \<Rightarrow> (string \<Rightarrow> string \<Rightarrow> exn + customer) \<Rightarrow> decoder \<Rightarrow> encoder \<Rightarrow>
     string \<Rightarrow> string \<Rightarrow> string \<Rightarrow> string \<Rightarrow> store_call list \<times> exn option" where
  "updateDNSRecord stripe_list stripe_create JSON_parse JSON_stringify
       domain subdomain recordType value =
     (let email = ''dns@'' @ domain in
      case stripe_list email of
        Inl error \<Rightarrow> ([], Some error)
      | Inr customers \<Rightarrow>
          (case (if length customers > 0 then
                   Inr (hd customers,
                        (case JSON_parse (dns_records_or_empty (hd customers)) of
                           Inl e \<Rightarrow> Obj []
                         | Inr parsed \<Rightarrow> parsed),
                        [])
                 else
                   (case stripe_create email (''DNS records for '' @ domain) of
                      Inl error \<Rightarrow> Inl error
                    | Inr created \<Rightarrow>
                        Inr (created, Obj [], [Create email (''DNS records for '' @ domain)]))) of
             Inl error \<Rightarrow> ([], Some error)
           | Inr (customer, dnsRecords, calls) \<Rightarrow>
               (let sub = (if subdomain = ''@'' \<or> subdomain = [] then ''@'' else subdomain) in
                case formatValue recordType value of
                  Inl error \<Rightarrow> (calls, Some error)
                | Inr formattedValue \<Rightarrow>
                    (case mergeRecord dnsRecords sub recordType formattedValue of
                       Inl error \<Rightarrow> (calls, Some error)
                     | Inr dnsRecords' \<Rightarrow>
                         (calls @ [Update (cust_id customer)
                                     [(''dns_domain'', Some domain),
                                      (''dns_records'', JSON_stringify dnsRecords')]],
                          None)))))"

section \<open>The codec (\<^verbatim>\<open>JSON.stringify\<close> and \<^verbatim>\<open>JSON.parse\<close>)\<close>

text \<open>
  The writer encodes the record set with \<^verbatim>\<open>JSON.stringify\<close> and the server decodes the
  stored text with \<^verbatim>\<open>JSON.parse\<close>. Both are built into the runtime; they are written out
  here after their definition in the language standard, for the values of type \<^typ>\<open>js\<close>.
\<close>

text \<open>The digit for a number below 16, in lower case.\<close>

definition hex_digit :: "nat \<Rightarrow> char" where
  "hex_digit n = ''0123456789abcdef'' ! n"

text \<open>The double quote and the backslash.\<close>

definition QUOTE :: char where "QUOTE = CHR 0x22"
definition BACKSLASH :: char where "BACKSLASH = CHR 0x5C"

text \<open>
  \<^verbatim>\<open>QuoteJSONString\<close>: the quote and the backslash are escaped, the control characters get
  their short escape if they have one and \<^verbatim>\<open>\u00xx\<close> otherwise.
\<close>

definition quote_char :: "char \<Rightarrow> string" where
  "quote_char c =
     (if c = QUOTE then [BACKSLASH, QUOTE]
      else if c = BACKSLASH then [BACKSLASH, BACKSLASH]
      else if c = CHR 0x08 then [BACKSLASH, CHR ''b'']
      else if c = CHR 0x09 then [BACKSLASH, CHR ''t'']
      else if c = CHR 0x0A then [BACKSLASH, CHR ''n'']
      else if c = CHR 0x0C then [BACKSLASH, CHR ''f'']
      else if c = CHR 0x0D then [BACKSLASH, CHR ''r'']
      else if of_char c < (32 :: nat) then
        [BACKSLASH, CHR ''u'', CHR ''0'', CHR ''0'',
         hex_digit (of_char c div 16), hex_digit (of_char c mod 16)]
      else [c])"

definition QuoteJSONString :: "string \<Rightarrow> string" where
  "QuoteJSONString s = QUOTE # concat (map quote_char s) @ [QUOTE]"

text \<open>
  A number is printed in decimal, without leading zeros. That is the text of the runtime
  for the integers up to \<open>2\<^sup>5\<^sup>3\<close> in magnitude; the shortest digits and the exponent form
  that it prints for larger numbers are not modelled.
\<close>

function show_nat :: "nat \<Rightarrow> string" where
  "show_nat n =
     (if n < 10 then [hex_digit n] else show_nat (n div 10) @ [hex_digit (n mod 10)])"
  by pat_completeness auto
termination
  by (relation "measure id") auto

declare show_nat.simps [simp del]

definition show_int :: "int \<Rightarrow> string" where
  "show_int i = (if i < 0 then CHR ''-'' # show_nat (nat (- i)) else show_nat (nat i))"

text \<open>
  The order in which the own properties of an object are enumerated: the keys that are
  array indices first, in ascending numeric order, then the other keys in the order in
  which they were added. The list of an \<^term>\<open>Obj\<close> holds them in the order of addition.
\<close>

definition is_index_key :: "string \<Rightarrow> bool" where
  "is_index_key k = (case array_index k of Some i \<Rightarrow> i < 4294967295 | None \<Rightarrow> False)"

definition js_order :: "(string \<times> 'a) list \<Rightarrow> (string \<times> 'a) list" where
  "js_order kvs =
     sort_key (\<lambda>kv. digits_val (fst kv)) (filter (\<lambda>kv. is_index_key (fst kv)) kvs) @
     filter (\<lambda>kv. \<not> is_index_key (fst kv)) kvs"

text \<open>
  \<^verbatim>\<open>SerializeJSONProperty\<close>, with no indentation. \<^term>\<open>None\<close> is \<^verbatim>\<open>undefined\<close>: a property with
  such a value is left out of an object, and an array element with such a value is
  written \<^verbatim>\<open>null\<close>.
\<close>

definition member_text :: "string \<times> string option \<Rightarrow> string option" where
  "member_text kt = (case snd kt of None \<Rightarrow> None
                      | Some t \<Rightarrow> Some (QuoteJSONString (fst kt) @ '':'' @ t))"

fun SerializeJSONProperty :: "js \<Rightarrow> string option"
  and SerializeJSONArray :: "js list \<Rightarrow> string list"
  and SerializeJSONObject :: "(string \<times> js) list \<Rightarrow> (string \<times> string option) list" where
  "SerializeJSONProperty Undefined = None"
| "SerializeJSONProperty Native = None"
| "SerializeJSONProperty Null = Some ''null''"
| "SerializeJSONProperty NaN = Some ''null''"
| "SerializeJSONProperty (Bool b) = Some (if b then ''true'' else ''false'')"
| "SerializeJSONProperty (Num n) = Some (show_int n)"
| "SerializeJSONProperty (Str s) = Some (QuoteJSONString s)"
| "SerializeJSONProperty (Arr xs) = Some (''['' @ join '','' (SerializeJSONArray xs) @ '']'')"
| "SerializeJSONProperty (Obj kvs) =
     Some (''{'' @ join '','' (List.map_filter member_text (js_order (SerializeJSONObject kvs)))
           @ ''}'')"
| "SerializeJSONArray [] = []"
| "SerializeJSONArray (x # xs) =
     (case SerializeJSONProperty x of None \<Rightarrow> ''null'' | Some t \<Rightarrow> t) # SerializeJSONArray xs"
| "SerializeJSONObject [] = []"
| "SerializeJSONObject ((k, v) # kvs) = (k, SerializeJSONProperty v) # SerializeJSONObject kvs"

definition JSON_stringify :: "js \<Rightarrow> string option" where
  "JSON_stringify v = SerializeJSONProperty v"

text \<open>
  \<^verbatim>\<open>JSON.parse\<close>, a recursive-descent parser of the JSON grammar. Every function returns the
  value read and the text that follows it. The functions for values, array elements and
  object members take a bound on the number of nested calls; \<^verbatim>\<open>JSON_parse\<close> starts them
  with twice the length of the text. A number with a fraction or an exponent and an escape
  \<^verbatim>\<open>\uXXXX\<close> beyond 255 have no counterpart among the values of this theory: for them, as
  for an exhausted bound, the result is \<^term>\<open>Unmodelled\<close>, which a caller that catches the
  errors of the decoder catches as well; the theorems below evaluate the parser at texts
  without such numbers and escapes only. An integer is read exactly, without the rounding
  of the runtime beyond \<open>2\<^sup>5\<^sup>3\<close>. A key that occurs twice keeps its place and takes the
  later value.
\<close>

definition json_ws :: "char \<Rightarrow> bool" where
  "json_ws c = (c = CHR 0x09 \<or> c = CHR 0x0A \<or> c = CHR 0x0D \<or> c = CHR '' '')"

definition skip_ws :: "string \<Rightarrow> string" where
  "skip_ws s = dropWhile json_ws s"

definition hex_val :: "char \<Rightarrow> nat option" where
  "hex_val c =
     (if is_digit c then Some (of_char c - 48)
      else if c \<in> set ''abcdef'' then Some (of_char c - 87)
      else if c \<in> set ''ABCDEF'' then Some (of_char c - 55)
      else None)"

definition unescape :: "char \<Rightarrow> char option" where
  "unescape e =
     (if e = QUOTE then Some QUOTE
      else if e = BACKSLASH then Some BACKSLASH
      else if e = CHR ''/'' then Some (CHR ''/'')
      else if e = CHR ''b'' then Some (CHR 0x08)
      else if e = CHR ''f'' then Some (CHR 0x0C)
      else if e = CHR ''n'' then Some (CHR 0x0A)
      else if e = CHR ''r'' then Some (CHR 0x0D)
      else if e = CHR ''t'' then Some (CHR 0x09)
      else None)"

definition cons_char :: "char \<Rightarrow> exn + string \<times> string \<Rightarrow> exn + string \<times> string" where
  "cons_char c r = (case r of Inl e \<Rightarrow> Inl e | Inr (cs, rest) \<Rightarrow> Inr (c # cs, rest))"

fun parse_chars :: "string \<Rightarrow> exn + string \<times> string" where
  "parse_chars [] = Inl SyntaxError"
| "parse_chars (c # s) =
     (if c = QUOTE then Inr ([], s)
      else if c = BACKSLASH then
        (case s of
           [] \<Rightarrow> Inl SyntaxError
         | e # s1 \<Rightarrow>
             if e = CHR ''u'' then
               (case s1 of
                  h1 # h2 # h3 # h4 # s2 \<Rightarrow>
                    (case (hex_val h1, hex_val h2, hex_val h3, hex_val h4) of
                       (Some d1, Some d2, Some d3, Some d4) \<Rightarrow>
                         if d1 = 0 \<and> d2 = 0
                         then cons_char (char_of (d3 * 16 + d4)) (parse_chars s2)
                         else (case parse_chars s2 of Inl e \<Rightarrow> Inl e | Inr _ \<Rightarrow> Inl Unmodelled)
                     | _ \<Rightarrow> Inl SyntaxError)
                | _ \<Rightarrow> Inl SyntaxError)
             else (case unescape e of
                     None \<Rightarrow> Inl SyntaxError
                   | Some c' \<Rightarrow> cons_char c' (parse_chars s1)))
      else if of_char c < (32 :: nat) then Inl SyntaxError
      else cons_char c (parse_chars s))"

definition number_tail :: "string \<Rightarrow> exn + bool" where
  "number_tail r =
     (let has_frac = (r \<noteq> [] \<and> hd r = CHR ''.'');
          fd = (if has_frac then takeWhile is_digit (tl r) else []);
          r1 = (if has_frac then dropWhile is_digit (tl r) else r);
          has_exp = (r1 \<noteq> [] \<and> (hd r1 = CHR ''e'' \<or> hd r1 = CHR ''E''));
          r2 = (if has_exp then tl r1 else r1);
          r3 = (if has_exp \<and> r2 \<noteq> [] \<and> (hd r2 = CHR ''+'' \<or> hd r2 = CHR ''-'') then tl r2 else r2);
          ed = (if has_exp then takeWhile is_digit r3 else [])
      in if (has_frac \<and> fd = []) \<or> (has_exp \<and> ed = []) then Inl SyntaxError
         else Inr (has_frac \<or> has_exp))"

definition parse_number :: "string \<Rightarrow> exn + js \<times> string" where
  "parse_number s =
     (let negative = (s \<noteq> [] \<and> hd s = CHR ''-'');
          s1 = (if negative then tl s else s)
      in case s1 of
           [] \<Rightarrow> Inl SyntaxError
         | d # s2 \<Rightarrow>
             if \<not> is_digit d then Inl SyntaxError
             else (let ds = (if d = CHR ''0'' then [d] else takeWhile is_digit s1);
                       r = (if d = CHR ''0'' then s2 else dropWhile is_digit s1)
                   in case number_tail r of
                        Inl e \<Rightarrow> Inl e
                      | Inr True \<Rightarrow> Inl Unmodelled
                      | Inr False \<Rightarrow>
                          Inr (Num (if negative then - int (digits_val ds)
                                    else int (digits_val ds)), r)))"

fun parse_value :: "nat \<Rightarrow> string \<Rightarrow> exn + js \<times> string"
  and parse_elements :: "nat \<Rightarrow> string \<Rightarrow> exn + js list \<times> string"
  and parse_members :: "nat \<Rightarrow> (string \<times> js) list \<Rightarrow> string \<Rightarrow> exn + js \<times> string" where
  "parse_value 0 s = Inl Unmodelled"
| "parse_value (Suc n) s =
     (case s of
        [] \<Rightarrow> Inl SyntaxError
      | c # r \<Rightarrow>
          if c = CHR ''{'' then
            (if skip_ws r \<noteq> [] \<and> hd (skip_ws r) = CHR ''}'' then Inr (Obj [], tl (skip_ws r))
             else parse_members n [] (skip_ws r))
          else if c = CHR ''['' then
            (if skip_ws r \<noteq> [] \<and> hd (skip_ws r) = CHR '']'' then Inr (Arr [], tl (skip_ws r))
             else (case parse_elements n (skip_ws r) of
                     Inl e \<Rightarrow> Inl e
                   | Inr (xs, r') \<Rightarrow> Inr (Arr xs, r')))
          else if c = QUOTE then
            (case parse_chars r of Inl e \<Rightarrow> Inl e | Inr (str, r') \<Rightarrow> Inr (Str str, r'))
          else if take 4 s = ''null'' then Inr (Null, drop 4 s)
          else if take 4 s = ''true'' then Inr (Bool True, drop 4 s)
          else if take 5 s = ''false'' then Inr (Bool False, drop 5 s)
          else parse_number s)"
| "parse_elements 0 s = Inl Unmodelled"
| "parse_elements (Suc n) s =
     (case parse_value n s of
        Inl e \<Rightarrow> Inl e
      | Inr (x, r) \<Rightarrow>
          (case skip_ws r of
             [] \<Rightarrow> Inl SyntaxError
           | c # r' \<Rightarrow>
               if c = CHR '','' then
                 (case parse_elements n (skip_ws r') of
                    Inl e \<Rightarrow> Inl e
                  | Inr (xs, r'') \<Rightarrow> Inr (x # xs, r''))
               else if c = CHR '']'' then Inr ([x], r')
               else Inl SyntaxError))"
| "parse_members 0 acc s = Inl Unmodelled"
| "parse_members (Suc n) acc s =
     (case s of
        [] \<Rightarrow> Inl SyntaxError
      | q # s1 \<Rightarrow>
          if q \<noteq> QUOTE then Inl SyntaxError
          else (case parse_chars s1 of
                  Inl e \<Rightarrow> Inl e
                | Inr (key, r) \<Rightarrow>
                    (case skip_ws r of
                       [] \<Rightarrow> Inl SyntaxError
                     | colon # r1 \<Rightarrow>
                         if colon \<noteq> CHR '':'' then Inl SyntaxError
                         else (case parse_value n (skip_ws r1) of
                                 Inl e \<Rightarrow> Inl e
                               | Inr (v, r2) \<Rightarrow>
                                   (case skip_ws r2 of
                                      [] \<Rightarrow> Inl SyntaxError
                                    | c # r3 \<Rightarrow>
                                        if c = CHR '','' then
                                          parse_members n (AList.update key v acc) (skip_ws r3)
                                        else if c = CHR ''}'' then
                                          Inr (Obj (AList.update key v acc), r3)
                                        else Inl SyntaxError)))))"

definition JSON_parse :: "string \<Rightarrow> exn + js" where
  "JSON_parse text =
     (case parse_value (2 * length text + 1) (skip_ws text) of
        Inl e \<Rightarrow> Inl e
      | Inr (v, r) \<Rightarrow> if skip_ws r = [] then Inr v else Inl SyntaxError)"

text \<open>
  The values that the decoder gives back exactly as they were encoded: no \<^verbatim>\<open>undefined\<close>, no
  \<^verbatim>\<open>NaN\<close>, no built-in object, and in every object the keys are distinct and listed in the
  order of enumeration.
\<close>

fun json_ok :: "js \<Rightarrow> bool"
  and json_ok_list :: "js list \<Rightarrow> bool"
  and json_ok_members :: "(string \<times> js) list \<Rightarrow> bool" where
  "json_ok Undefined = False"
| "json_ok Native = False"
| "json_ok NaN = False"
| "json_ok Null = True"
| "json_ok (Bool b) = True"
| "json_ok (Num n) = True"
| "json_ok (Str s) = True"
| "json_ok (Arr xs) = json_ok_list xs"
| "json_ok (Obj kvs) = (distinct (map fst kvs) \<and> js_order kvs = kvs \<and> json_ok_members kvs)"
| "json_ok_list [] = True"
| "json_ok_list (x # xs) = (json_ok x \<and> json_ok_list xs)"
| "json_ok_members [] = True"
| "json_ok_members ((k, v) # kvs) = (json_ok v \<and> json_ok_members kvs)"

text \<open>Auxiliary notions for the round trip: the text of the members of an object, the
  characters that may follow a number, and the characters that start a value.\<close>

definition members_text :: "(string \<times> js) list \<Rightarrow> string" where
  "members_text kvs = join '','' (List.map_filter member_text (SerializeJSONObject kvs))"

definition number_end :: "string \<Rightarrow> bool" where
  "number_end rest = (rest = [] \<or> hd rest \<in> set '',]}'')"

definition value_start :: "char \<Rightarrow> bool" where
  "value_start c = (c \<in> set ''{[ntf-0123456789'' \<or> c = QUOTE)"

section \<open>Valid record sets\<close>

text \<open>
  The data model of the specification: a record set maps a label to its type records, and
  the type records hold, for each of the types \<^verbatim>\<open>A\<close>, \<^verbatim>\<open>CNAME\<close> and \<^verbatim>\<open>MX\<close>, either nothing or
  a sequence of values. The functions \<open>js_of_...\<close> give the JavaScript value that the
  decoder yields for a valid record set, in the layout the writer stores:
  \<^verbatim>\<open>{"@": {"A": ["1.2.3.4"], "MX": [{"priority": 10, "exchange": "mail.x.com."}]}}\<close>.
\<close>

record mx_value =
  mx_priority :: int
  mx_exchange :: string

record TypeRecords =
  rec_A :: "string list option"
  rec_CNAME :: "string list option"
  rec_MX :: "mx_value list option"

type_synonym RecordSet = "(string \<times> TypeRecords) list"

definition js_of_mx :: "mx_value \<Rightarrow> js" where
  "js_of_mx m = Obj [(''priority'', Num (mx_priority m)), (''exchange'', Str (mx_exchange m))]"

definition js_entry :: "string \<Rightarrow> js option \<Rightarrow> (string \<times> js) list" where
  "js_entry k v = (case v of None \<Rightarrow> [] | Some x \<Rightarrow> [(k, x)])"

definition js_of_TypeRecords :: "TypeRecords \<Rightarrow> js" where
  "js_of_TypeRecords tr =
     Obj (js_entry ''A'' (map_option (\<lambda>xs. Arr (map Str xs)) (rec_A tr)) @
          js_entry ''CNAME'' (map_option (\<lambda>xs. Arr (map Str xs)) (rec_CNAME tr)) @
          js_entry ''MX'' (map_option (\<lambda>ms. Arr (map js_of_mx ms)) (rec_MX tr)))"

definition js_of_RecordSet :: "RecordSet \<Rightarrow> js" where
  "js_of_RecordSet rs = Obj (map (\<lambda>(label, tr). (label, js_of_TypeRecords tr)) rs)"

text \<open>The answers that carry one stored value.\<close>

definition A_answer :: "string \<Rightarrow> string \<Rightarrow> answer" where
  "A_answer name ip =
     \<lparr> ans_name = name, ans_type = TYPE_A, ans_class = CLASS_IN, ans_ttl = 300,
       ans_rdata = Address (Str ip) \<rparr>"

definition CNAME_answer :: "string \<Rightarrow> string \<Rightarrow> answer" where
  "CNAME_answer name target =
     \<lparr> ans_name = name, ans_type = TYPE_CNAME, ans_class = CLASS_IN, ans_ttl = 300,
       ans_rdata = Domain (Str target) \<rparr>"

definition MX_answer :: "string \<Rightarrow> mx_value \<Rightarrow> answer" where
  "MX_answer name m =
     \<lparr> ans_name = name, ans_type = TYPE_MX, ans_class = CLASS_IN, ans_ttl = 300,
       ans_rdata = Exchange (Num (mx_priority m)) (Str (mx_exchange m)) \<rparr>"

section \<open>The answer table as the specification words it\<close>

text \<open>
  The row of the specification's table for a query of type \<^verbatim>\<open>A\<close>, word for word: the \<^verbatim>\<open>A\<close>
  values if any are stored, else the \<^verbatim>\<open>CNAME\<close> values with the answer type \<^verbatim>\<open>CNAME\<close>, else
  nothing; one answer per value. It is compared with \<^const>\<open>addRecordsToResponse\<close> below.
\<close>

definition spec_A_query_answers :: "string \<Rightarrow> TypeRecords \<Rightarrow> answer list" where
  "spec_A_query_answers name tr =
     (case rec_A tr of
        Some ips \<Rightarrow> map (A_answer name) ips
      | None \<Rightarrow>
          (case rec_CNAME tr of
             Some targets \<Rightarrow> map (CNAME_answer name) targets
           | None \<Rightarrow> []))"

section \<open>The MX normalisation as the specification words it\<close>

text \<open>
  The specification's rule for one comma-separated segment of an \<^verbatim>\<open>MX\<close> value, word for
  word: split the segment on its first white-space character into the priority, parsed as
  an integer, and the exchange; append a dot to the exchange unless it ends in one. It is
  compared with \<^const>\<open>formatValue\<close> below.
\<close>

definition spec_split_first_whitespace :: "string \<Rightarrow> string \<times> string" where
  "spec_split_first_whitespace seg =
     (takeWhile (\<lambda>c. \<not> is_whitespace c) seg,
      drop 1 (dropWhile (\<lambda>c. \<not> is_whitespace c) seg))"

definition spec_normalize_MX_segment :: "string \<Rightarrow> js" where
  "spec_normalize_MX_segment seg =
     (let (priority, exchange) = spec_split_first_whitespace seg
      in Obj [(''priority'', parseInt priority),
              (''exchange'', Str (if endsWith_dot exchange then exchange else exchange @ ''.''))])"

definition spec_normalize_MX :: "string \<Rightarrow> js" where
  "spec_normalize_MX value = Arr (map spec_normalize_MX_segment (split (CHR '','') value))"

text \<open>A segment in the format of the writer's usage line, \<^verbatim>\<open>priority exchange\<close>: its first
  white-space character is a space, and no further space follows.\<close>

definition priority_space_exchange :: "string \<Rightarrow> bool" where
  "priority_space_exchange seg =
     (case dropWhile (\<lambda>c. \<not> is_whitespace c) seg of
        [] \<Rightarrow> False
      | c # rest \<Rightarrow> c = CHR '' '' \<and> CHR '' '' \<notin> set rest)"

text \<open>
  A segment that, once trimmed, is the decimal text of the integer \<open>p\<close>, one space, and an
  exchange \<open>e\<close> without a space; \<open>p\<close> is at most \<^verbatim>\<open>Number.MAX_SAFE_INTEGER\<close> in magnitude,
  the range in which \<^verbatim>\<open>parseInt\<close> returns the integer itself. For such a segment the
  specification's rule asks for the record of the priority \<open>p\<close> and of the exchange \<open>e\<close>,
  with a dot appended unless \<open>e\<close> ends in one.
\<close>

definition MAX_SAFE_INTEGER :: int where
  "MAX_SAFE_INTEGER = 9007199254740991"

definition priority_exchange_segment :: "string \<Rightarrow> int \<Rightarrow> string \<Rightarrow> bool" where
  "priority_exchange_segment seg p e =
     (trim seg = show_int p @ CHR '' '' # e \<and> CHR '' '' \<notin> set e \<and> \<bar>p\<bar> \<le> MAX_SAFE_INTEGER)"

definition spec_MX_record :: "int \<Rightarrow> string \<Rightarrow> js" where
  "spec_MX_record p e =
     Obj [(''priority'', Num p),
          (''exchange'', Str (if endsWith_dot e then e else e @ ''.''))]"

section \<open>Reading a record set\<close>

text \<open>The value stored in a decoded record set under a label and a record type: own
  properties only.\<close>

definition stored_values :: "js \<Rightarrow> string \<Rightarrow> string \<Rightarrow> js option" where
  "stored_values dnsRecords label recordType =
     (case own_prop dnsRecords label of
        None \<Rightarrow> None
      | Some typeRecords \<Rightarrow> own_prop typeRecords recordType)"

section \<open>Properties of the domain parser\<close>

lemma split_no_sep: "c \<notin> set s \<Longrightarrow> split c s = [s]"
  by (induction s) (auto simp: Let_def)

text \<open>
  Claim C10. A query name that contains no dot is parsed to the pair of the apex domain,
  equal to the whole name, and the label \<^verbatim>\<open>@\<close>.
\<close>

theorem parseDomainParts_single_label:
  "CHR ''.'' \<notin> set name \<Longrightarrow>
     parseDomainParts name = (name, ''@'')"
  by (simp add: parseDomainParts_def split_no_sep slice_last2_def slice_but_last2_def)

theorem parseDomainParts_single_label_witness:
  "CHR ''.'' \<notin> set ''localhost'' \<and>
     parseDomainParts ''localhost'' = (''localhost'', ''@'')"
  using parseDomainParts_single_label [of "''localhost''"] by simp

section \<open>Properties of the answer synthesis\<close>

lemma get_prop_TypeRecords_A:
  "get_prop (js_of_TypeRecords tr) ''A'' = Inr (case rec_A tr of None \<Rightarrow> Undefined | Some xs \<Rightarrow> Arr (map Str xs))"
  by (simp add: get_prop_def js_of_TypeRecords_def js_entry_def object_prototype_names_def split: option.splits)

lemma get_prop_TypeRecords_CNAME:
  "get_prop (js_of_TypeRecords tr) ''CNAME'' = Inr (case rec_CNAME tr of None \<Rightarrow> Undefined | Some xs \<Rightarrow> Arr (map Str xs))"
  by (simp add: get_prop_def js_of_TypeRecords_def js_entry_def object_prototype_names_def split: option.splits)

lemma get_prop_TypeRecords_MX:
  "get_prop (js_of_TypeRecords tr) ''MX'' = Inr (case rec_MX tr of None \<Rightarrow> Undefined | Some ms \<Rightarrow> Arr (map js_of_mx ms))"
  by (simp add: get_prop_def js_of_TypeRecords_def js_entry_def object_prototype_names_def split: option.splits)

lemma forEach_A_strings:
  "forEach_A response name (map Str ips) = (response @ map (A_answer name) ips, Inr ())"
  by (induction ips arbitrary: response) (simp_all add: addRecord_def A_answer_def)

lemma forEach_MX_values:
  "forEach_MX response name (map js_of_mx ms) = (response @ map (MX_answer name) ms, Inr ())"
  by (induction ms arbitrary: response)
     (simp_all add: addRecord_def MX_answer_def js_of_mx_def get_prop_def object_prototype_names_def)

lemma addCNAME_strings:
  "addCNAME response name (Arr (Str c # rest)) = (response @ [CNAME_answer name c], Inr True)"
  by (simp add: addCNAME_def get_prop_def array_index_def is_digit_def digits_val_def digit_val_def addRecord_def CNAME_answer_def)

lemmas TYPE_defs = TYPE_A_def TYPE_CNAME_def TYPE_MX_def

text \<open>
  Claim C1, as the code has it. For an \<^verbatim>\<open>A\<close> query on the type records of a valid record
  set: when an \<^verbatim>\<open>A\<close> entry is stored, one \<^verbatim>\<open>A\<close> answer is pushed per stored value, in the
  stored order; when no \<^verbatim>\<open>A\<close> entry is stored and the \<^verbatim>\<open>CNAME\<close> entry holds at least one
  value, exactly one answer of type \<^verbatim>\<open>CNAME\<close> is pushed, for the first stored value; when
  neither entry is stored, nothing is pushed.
\<close>

theorem A_query_answers:
  "(rec_A tr = Some ips \<longrightarrow>
      addRecordsToResponse response name (js_of_TypeRecords tr) TYPE_A
        = (response @ map (A_answer name) ips, Inr True)) \<and>
   (rec_A tr = None \<and> rec_CNAME tr = Some (c # cs) \<longrightarrow>
      addRecordsToResponse response name (js_of_TypeRecords tr) TYPE_A
        = (response @ [CNAME_answer name c], Inr True)) \<and>
   (rec_A tr = None \<and> rec_CNAME tr = None \<longrightarrow>
      addRecordsToResponse response name (js_of_TypeRecords tr) TYPE_A
        = (response, Inr False))"
  by (simp add: addRecordsToResponse_def get_prop_TypeRecords_A get_prop_TypeRecords_CNAME
        forEach_A_strings addCNAME_strings)

theorem A_query_answers_witness:
  "addRecordsToResponse [] ''example.com''
     (js_of_TypeRecords \<lparr> rec_A = Some [''1.1.1.1'', ''2.2.2.2''], rec_CNAME = Some [''a.com.''], rec_MX = None \<rparr>) TYPE_A
     = ([A_answer ''example.com'' ''1.1.1.1'', A_answer ''example.com'' ''2.2.2.2''], Inr True) \<and>
   addRecordsToResponse [] ''www.example.com''
     (js_of_TypeRecords \<lparr> rec_A = None, rec_CNAME = Some [''a.com.'', ''b.com.''], rec_MX = None \<rparr>) TYPE_A
     = ([CNAME_answer ''www.example.com'' ''a.com.''], Inr True) \<and>
   addRecordsToResponse [] ''example.com''
     (js_of_TypeRecords \<lparr> rec_A = None, rec_CNAME = None, rec_MX = Some [] \<rparr>) TYPE_A
     = ([], Inr False)"
  using
    A_query_answers [of "\<lparr> rec_A = Some [''1.1.1.1'', ''2.2.2.2''], rec_CNAME = Some [''a.com.''], rec_MX = None \<rparr>"
      "[''1.1.1.1'', ''2.2.2.2'']" "[]" "''example.com''"]
    A_query_answers [of "\<lparr> rec_A = None, rec_CNAME = Some [''a.com.'', ''b.com.''], rec_MX = None \<rparr>"
      _ "[]" "''www.example.com''" "''a.com.''" "[''b.com.'']"]
    A_query_answers [of "\<lparr> rec_A = None, rec_CNAME = None, rec_MX = Some [] \<rparr>" _ "[]" "''example.com''"]
  by simp

text \<open>
  Claim C1, as the specification words it, fails: with two \<^verbatim>\<open>CNAME\<close> values stored and no
  \<^verbatim>\<open>A\<close> entry, the table promises both values and the code answers with the first only.
\<close>

theorem A_query_all_CNAME_values_counterexample:
  "fst (addRecordsToResponse [] ''www.example.com''
          (js_of_TypeRecords \<lparr> rec_A = None, rec_CNAME = Some [''a.com.'', ''b.com.''], rec_MX = None \<rparr>)
          TYPE_A)
     \<noteq> spec_A_query_answers ''www.example.com''
          \<lparr> rec_A = None, rec_CNAME = Some [''a.com.'', ''b.com.''], rec_MX = None \<rparr>"
  by (simp add: addRecordsToResponse_def get_prop_TypeRecords_A get_prop_TypeRecords_CNAME
        addCNAME_strings spec_A_query_answers_def)

text \<open>
  Claim C7. For an \<^verbatim>\<open>MX\<close> query on type records with a stored \<^verbatim>\<open>MX\<close> entry, the answers
  pushed are the stored values mapped one by one, in the stored order: nothing sorts them
  by priority.
\<close>

theorem MX_stored_order:
  "rec_MX tr = Some ms \<Longrightarrow> addRecordsToResponse response name (js_of_TypeRecords tr) TYPE_MX
     = (response @ map (MX_answer name) ms, Inr (ms \<noteq> []))"
  by (simp add: addRecordsToResponse_def get_prop_TypeRecords_MX forEach_MX_values TYPE_defs)

theorem MX_stored_order_witness:
  "rec_MX \<lparr> rec_A = None, rec_CNAME = None,
       rec_MX = Some [\<lparr> mx_priority = 20, mx_exchange = ''b.com.'' \<rparr>,
                      \<lparr> mx_priority = 10, mx_exchange = ''a.com.'' \<rparr>] \<rparr>
     = Some [\<lparr> mx_priority = 20, mx_exchange = ''b.com.'' \<rparr>,
             \<lparr> mx_priority = 10, mx_exchange = ''a.com.'' \<rparr>] \<and>
   addRecordsToResponse [] ''example.com''
     (js_of_TypeRecords \<lparr> rec_A = None, rec_CNAME = None,
       rec_MX = Some [\<lparr> mx_priority = 20, mx_exchange = ''b.com.'' \<rparr>,
                      \<lparr> mx_priority = 10, mx_exchange = ''a.com.'' \<rparr>] \<rparr>) TYPE_MX
     = ([MX_answer ''example.com'' \<lparr> mx_priority = 20, mx_exchange = ''b.com.'' \<rparr>,
         MX_answer ''example.com'' \<lparr> mx_priority = 10, mx_exchange = ''a.com.'' \<rparr>], Inr True)"
  using MX_stored_order [of "\<lparr> rec_A = None, rec_CNAME = None,
       rec_MX = Some [\<lparr> mx_priority = 20, mx_exchange = ''b.com.'' \<rparr>,
                      \<lparr> mx_priority = 10, mx_exchange = ''a.com.'' \<rparr>] \<rparr>" _ "[]" "''example.com''"]
  by simp

text \<open>
  Claim C9. When the \<^verbatim>\<open>CNAME\<close> entry stores the values \<open>c # cs\<close>, a \<^verbatim>\<open>CNAME\<close> query, and
  an \<^verbatim>\<open>A\<close> query that falls back to \<^verbatim>\<open>CNAME\<close>, push exactly one answer, for the first value
  \<open>c\<close>; the remaining values \<open>cs\<close> are not served.
\<close>

theorem CNAME_first_value_only:
  "rec_CNAME tr = Some (c # cs) \<Longrightarrow>
     addRecordsToResponse response name (js_of_TypeRecords tr) TYPE_CNAME
       = (response @ [CNAME_answer name c], Inr True) \<and>
     (rec_A tr = None \<longrightarrow>
        addRecordsToResponse response name (js_of_TypeRecords tr) TYPE_A
          = (response @ [CNAME_answer name c], Inr True))"
  by (simp add: addRecordsToResponse_def get_prop_TypeRecords_A get_prop_TypeRecords_CNAME
        addCNAME_strings TYPE_defs)

theorem CNAME_first_value_only_witness:
  "addRecordsToResponse [] ''www.example.com''
     (js_of_TypeRecords \<lparr> rec_A = None, rec_CNAME = Some [''a.com.'', ''b.com.'', ''c.com.''], rec_MX = None \<rparr>)
     TYPE_CNAME = ([CNAME_answer ''www.example.com'' ''a.com.''], Inr True) \<and>
   addRecordsToResponse [] ''www.example.com''
     (js_of_TypeRecords \<lparr> rec_A = None, rec_CNAME = Some [''a.com.'', ''b.com.'', ''c.com.''], rec_MX = None \<rparr>)
     TYPE_A = ([CNAME_answer ''www.example.com'' ''a.com.''], Inr True)"
  using CNAME_first_value_only [of "\<lparr> rec_A = None, rec_CNAME = Some [''a.com.'', ''b.com.'', ''c.com.''], rec_MX = None \<rparr>"
      "''a.com.''" "[''b.com.'', ''c.com.'']" "[]" "''www.example.com''"]
  by simp

section \<open>The codec on examples\<close>

text \<open>The stored texts used below, decoded, and two record sets encoded: the keys that
  are array indices come first, and a property whose value is \<^verbatim>\<open>undefined\<close> is left out.\<close>

lemma JSON_parse_wildcard: \<open>JSON_parse ''{"*":{"A":["9.9.9.9"]}}''
   = Inr (js_of_RecordSet [(''*'', \<lparr> rec_A = Some [''9.9.9.9''], rec_CNAME = None, rec_MX = None \<rparr>)])\<close>
  by code_simp

lemma JSON_parse_null_element: \<open>JSON_parse ''{"@":{"MX":[{"priority":10,"exchange":"a.com."},null]}}''
   = Inr (Obj [(''@'', Obj [(''MX'',
        Arr [Obj [(''priority'', Num 10), (''exchange'', Str ''a.com.'')], Null])])])\<close>
  by code_simp

lemma JSON_stringify_example: \<open>JSON_stringify (js_of_RecordSet
     [(''@'', \<lparr> rec_A = Some [''1.2.3.4'', ''5.6.7.8''], rec_CNAME = None,
               rec_MX = Some [\<lparr> mx_priority = 10, mx_exchange = ''mail.x.com.'' \<rparr>] \<rparr>)])
   = Some ''{"@":{"A":["1.2.3.4","5.6.7.8"],"MX":[{"priority":10,"exchange":"mail.x.com."}]}}''\<close>
  by code_simp

lemma JSON_stringify_order: \<open>JSON_stringify (Obj [(''www'', Null), (''10'', Num (- 3)), (''9'', Undefined), (''2'', Str [CHR ''a'', QUOTE, CHR 0x0A, CHR 0x01])])
   = Some (''{"2":"a'' @ [BACKSLASH, QUOTE, BACKSLASH] @ ''n'' @ [BACKSLASH] @ ''u0001","10":-3,"www":null}'')\<close>
  by code_simp

lemma JSON_parse_malformed: \<open>JSON_parse ''{oops'' = Inl SyntaxError\<close>
  by code_simp

section \<open>Properties of reading a valid record set\<close>

lemma own_prop_RecordSet:
  "own_prop (js_of_RecordSet rs) l = map_option js_of_TypeRecords (map_of rs l)"
  by (induction rs) (auto simp: js_of_RecordSet_def)

lemma get_prop_RecordSet:
  "get_prop (js_of_RecordSet rs) l =
     Inr (case map_of rs l of
            Some tr \<Rightarrow> js_of_TypeRecords tr
          | None \<Rightarrow> if l \<in> set object_prototype_names then Native else Undefined)"
proof -
  have "js_of_RecordSet rs \<noteq> Undefined" "js_of_RecordSet rs \<noteq> Null"
    by (simp_all add: js_of_RecordSet_def)
  then show ?thesis
    by (simp add: get_prop_def own_prop_RecordSet split: option.splits)
qed

lemma truthy_TypeRecords: "truthy (js_of_TypeRecords tr)"
  by (simp add: js_of_TypeRecords_def)

text \<open>The resolution of a label on a valid record set, for every label that is stored or
  is not the name of a property of \<^verbatim>\<open>Object.prototype\<close>: the entry of the label if there is
  one, else the wildcard entry unless the label is \<^verbatim>\<open>@\<close>, else \<^verbatim>\<open>null\<close>.\<close>

lemma resolveLabel_RecordSet:
  assumes "map_of rs label \<noteq> None \<or> label \<notin> set object_prototype_names"
  shows "resolveLabel (js_of_RecordSet rs) label =
     Inr (case map_of rs label of
            Some tr \<Rightarrow> js_of_TypeRecords tr
          | None \<Rightarrow>
              if label \<noteq> ''@'' then
                (case map_of rs ''*'' of Some tr \<Rightarrow> js_of_TypeRecords tr | None \<Rightarrow> Null)
              else Null)"
proof -
  have "''*'' \<notin> set object_prototype_names" by (simp add: object_prototype_names_def)
  then show ?thesis
    using assms
    by (auto simp: resolveLabel_def get_prop_RecordSet truthy_TypeRecords split: option.splits)
qed

section \<open>Properties of the store lookup and of the request handler\<close>

text \<open>
  Claim C3. When the store lookup raises, when the store knows no customer for the apex
  domain, and when the stored blob fails to decode, the response has no answer at all: in
  particular it does not hold the fallback answer.
\<close>

theorem fail_soft_empty_answer:
  "(stripe (''dns@'' @ fst (parseDomainParts name)) = Inl e \<longrightarrow>
      handleRequest stripe parse name type = []) \<and>
   (stripe (''dns@'' @ fst (parseDomainParts name)) = Inr [] \<longrightarrow>
      handleRequest stripe parse name type = []) \<and>
   (stripe (''dns@'' @ fst (parseDomainParts name)) = Inr (c # cs) \<and>
      parse (dns_records_or_empty c) = Inl e' \<longrightarrow>
      handleRequest stripe parse name type = [])"
  by (simp add: handleRequest_def split_beta lookupDnsRecords_def)

theorem fail_soft_empty_answer_witness:
  "handleRequest (\<lambda>email. Inl StoreError) JSON_parse ''www.example.com'' TYPE_A = [] \<and>
   handleRequest (\<lambda>email. Inr []) JSON_parse ''www.example.com'' TYPE_A = [] \<and>
   handleRequest (\<lambda>email. Inr [\<lparr> cust_id = ''cus_1'', metadata = [(''dns_records'', ''{oops'')] \<rparr>])
     JSON_parse ''www.example.com'' TYPE_A = []"
  using
    fail_soft_empty_answer [of "\<lambda>email. Inl StoreError" "''www.example.com''" StoreError
      JSON_parse TYPE_A]
    fail_soft_empty_answer [of "\<lambda>email. Inr []" "''www.example.com''" _ JSON_parse TYPE_A]
    fail_soft_empty_answer [of "\<lambda>email. Inr [\<lparr> cust_id = ''cus_1'', metadata = [(''dns_records'', ''{oops'')] \<rparr>]"
      "''www.example.com''" _ JSON_parse TYPE_A
      "\<lparr> cust_id = ''cus_1'', metadata = [(''dns_records'', ''{oops'')] \<rparr>" "[]" SyntaxError]
  by (simp add: dns_records_or_empty_def JSON_parse_malformed)

lemma parse_constructor: "parseDomainParts ''constructor.example.com'' = (''example.com'', ''constructor'')"
  by (simp add: parseDomainParts_def slice_last2_def slice_but_last2_def Let_def)

text \<open>
  Claim C4 at the label \<^verbatim>\<open>constructor\<close>, which the record set does not store while it
  stores a wildcard: \<^verbatim>\<open>dnsRecords['constructor']\<close> is the function inherited from
  \<^verbatim>\<open>Object.prototype\<close>, a truthy value, so the wildcard is never consulted and the \<^verbatim>\<open>A\<close>
  query for \<^verbatim>\<open>constructor.example.com\<close> is answered with nothing.
\<close>

theorem inherited_label_hides_wildcard:
  \<open>resolveLabel (js_of_RecordSet [(''*'', \<lparr> rec_A = Some [''9.9.9.9''], rec_CNAME = None, rec_MX = None \<rparr>)])
     ''constructor'' = Inr Native \<and>
   handleRequest
     (\<lambda>email. Inr [\<lparr> cust_id = ''cus_1'', metadata = [(''dns_records'', ''{"*":{"A":["9.9.9.9"]}}'')] \<rparr>])
     JSON_parse ''constructor.example.com'' TYPE_A = []\<close>
  by (simp add: handleRequest_def parse_constructor lookupDnsRecords_def dns_records_or_empty_def
      JSON_parse_wildcard resolveLabel_def get_prop_def js_of_RecordSet_def
      object_prototype_names_def addRecordsToResponse_def)

text \<open>What the handler answers when the synthesis raises: the answers pushed until then,
  followed by the fallback; the fallback alone when nothing had been pushed.\<close>

lemma handleRequest_raise:
  assumes "parseDomainParts name = (topDomain, subdomain)"
    and "lookupDnsRecords stripe parse topDomain subdomain = recordSet"
    and "truthy recordSet"
    and "addRecordsToResponse [] name recordSet type = (pushed, Inl e)"
  shows "handleRequest stripe parse name type = pushed @ [fallback name]"
  using assms by (simp add: handleRequest_def)

lemma parse_apex: "parseDomainParts ''example.com'' = (''example.com'', ''@'')"
  by (simp add: parseDomainParts_def slice_last2_def slice_but_last2_def Let_def)

text \<open>
  Claim C2 at a stored \<^verbatim>\<open>MX\<close> list whose second element is \<^verbatim>\<open>null\<close>: the first value is
  pushed, reading \<^verbatim>\<open>mx.exchange\<close> of \<^verbatim>\<open>null\<close> raises a TypeError, and the \<^verbatim>\<open>catch\<close> block
  pushes the fallback after the answer already there. The response holds two answers.
\<close>

theorem fallback_after_partial_answers:
  \<open>handleRequest
     (\<lambda>email. Inr [\<lparr> cust_id = ''cus_1'',
        metadata = [(''dns_records'', ''{"@":{"MX":[{"priority":10,"exchange":"a.com."},null]}}'')] \<rparr>])
     JSON_parse ''example.com'' TYPE_MX
   = [MX_answer ''example.com'' \<lparr> mx_priority = 10, mx_exchange = ''a.com.'' \<rparr>,
      fallback ''example.com'']\<close>
  by (simp add: handleRequest_def parse_apex lookupDnsRecords_def dns_records_or_empty_def
      JSON_parse_null_element resolveLabel_def
      get_prop_def object_prototype_names_def addRecordsToResponse_def TYPE_defs
      addRecord_def MX_answer_def)

section \<open>Properties of the codec\<close>

subsection \<open>Numbers\<close>

lemma hex_digit_decimal_upto:
  "\<forall>n \<in> set [0..<10]. is_digit (hex_digit n) \<and> digit_val (hex_digit n) = n \<and>
       ((hex_digit n = CHR ''0'') = (n = 0))"
  by code_simp

lemma hex_digit_decimal:
  assumes "n < 10"
  shows "is_digit (hex_digit n)" and "digit_val (hex_digit n) = n"
    and "(hex_digit n = CHR ''0'') = (n = 0)"
  using assms hex_digit_decimal_upto by simp_all

lemma hex_val_hex_digit_upto: "\<forall>n \<in> set [0..<16]. hex_val (hex_digit n) = Some n"
  by code_simp

lemma hex_val_hex_digit: "n < 16 \<Longrightarrow> hex_val (hex_digit n) = Some n"
  using hex_val_hex_digit_upto by simp

lemma digits_val_snoc: "digits_val (ds @ [d]) = 10 * digits_val ds + digit_val d"
  by (simp add: digits_val_def)

lemma show_nat_digits: "list_all is_digit (show_nat n)"
  by (induction n rule: show_nat.induct) (subst show_nat.simps, simp add: hex_digit_decimal)

lemma show_nat_nonempty: "show_nat n \<noteq> []"
  by (subst show_nat.simps) simp

lemma digits_val_show_nat: "digits_val (show_nat n) = n"
proof (induction n rule: show_nat.induct)
  case (1 n)
  show ?case
  proof (cases "n < 10")
    case True
    then show ?thesis
      by (subst show_nat.simps) (simp add: digits_val_def hex_digit_decimal)
  next
    case False
    with 1 show ?thesis
      by (subst show_nat.simps) (simp add: digits_val_snoc hex_digit_decimal)
  qed
qed

lemma hd_show_nat_zero: "hd (show_nat n) = CHR ''0'' \<Longrightarrow> n = 0"
proof (induction n rule: show_nat.induct)
  case (1 n)
  show ?case
  proof (cases "n < 10")
    case True
    with 1(2) show ?thesis
      by (subst (asm) show_nat.simps) (simp add: hex_digit_decimal)
  next
    case False
    have "hd (show_nat n) = hd (show_nat (n div 10))"
      using False show_nat_nonempty [of "n div 10"]
      by (subst show_nat.simps) simp
    with 1 False have "n div 10 = 0" by simp
    with False show ?thesis by simp
  qed
qed

lemma show_nat_0: "show_nat 0 = ''0''"
  by (subst show_nat.simps) (simp add: hex_digit_def)

lemma number_end_tail: "number_end rest \<Longrightarrow> number_tail rest = Inr False"
  by (cases rest) (auto simp: number_tail_def number_end_def Let_def)

lemma number_end_not_digit: "number_end rest \<Longrightarrow> rest = [] \<or> \<not> is_digit (hd rest)"
  by (auto simp: number_end_def is_digit_def)

lemma takeWhile_digits:
  "list_all is_digit ds \<Longrightarrow> rest = [] \<or> \<not> is_digit (hd rest) \<Longrightarrow>
     takeWhile is_digit (ds @ rest) = ds \<and> dropWhile is_digit (ds @ rest) = rest"
  by (induction ds) (cases rest; simp)+

lemma parse_nat_text:
  assumes "number_end rest"
  shows "parse_number (show_nat n @ rest) = Inr (Num (int n), rest)"
proof -
  obtain d ds where s: "show_nat n = d # ds"
    using show_nat_nonempty [of n] by (cases "show_nat n") auto
  have dig: "list_all is_digit (d # ds)" using show_nat_digits [of n] s by simp
  have nm: "d \<noteq> CHR ''-''" using dig by (auto simp: is_digit_def)
  have tw: "takeWhile is_digit (d # ds @ rest) = d # ds" "dropWhile is_digit (d # ds @ rest) = rest"
    using takeWhile_digits [OF dig number_end_not_digit [OF assms]] by simp_all
  show ?thesis
  proof (cases "d = CHR ''0''")
    case True
    then have "n = 0" using hd_show_nat_zero [of n] s by simp
    then have "ds = []" using s show_nat_0 by simp
    with True s \<open>n = 0\<close> assms nm show ?thesis
      by (simp add: parse_number_def is_digit_def number_end_tail digits_val_def digit_val_def)
  next
    case False
    have "digits_val (d # ds) = n" using digits_val_show_nat [of n] s by simp
    with False dig nm tw assms show ?thesis
      by (simp add: parse_number_def s number_end_tail Let_def)
  qed
qed

lemma parse_int_text:
  assumes "number_end rest"
  shows "parse_number (show_int i @ rest) = Inr (Num i, rest)"
proof (cases "i < 0")
  case False
  then show ?thesis using parse_nat_text [OF assms, of "nat i"] by (simp add: show_int_def)
next
  case True
  obtain d ds where s: "show_nat (nat (- i)) = d # ds"
    using show_nat_nonempty [of "nat (- i)"] by (cases "show_nat (nat (- i))") auto
  have dig: "list_all is_digit (d # ds)" using show_nat_digits [of "nat (- i)"] s by simp
  have nz: "d \<noteq> CHR ''0''"
    using hd_show_nat_zero [of "nat (- i)"] s True by auto
  have tw: "takeWhile is_digit (d # ds @ rest) = d # ds" "dropWhile is_digit (d # ds @ rest) = rest"
    using takeWhile_digits [OF dig number_end_not_digit [OF assms]] by simp_all
  have "digits_val (d # ds) = nat (- i)" using digits_val_show_nat [of "nat (- i)"] s by simp
  with True nz dig tw assms show ?thesis
    by (simp add: parse_number_def show_int_def s number_end_tail Let_def)
qed

subsection \<open>Strings\<close>

lemma char_of_of_char_nat: "char_of (of_char c :: nat) = c"
  by simp

lemma control_hex:
  assumes "of_char c < (32 :: nat)"
  shows "hex_val (hex_digit (of_char c div 16)) = Some (of_char c div 16)"
    and "hex_val (hex_digit (of_char c mod 16)) = Some (of_char c mod 16)"
    and "char_of ((of_char c :: nat) div 16 * 16 + of_char c mod 16) = c"
proof -
  have "(of_char c :: nat) div 16 < 16" using assms by simp
  then show "hex_val (hex_digit (of_char c div 16)) = Some (of_char c div 16)"
    by (rule hex_val_hex_digit)
  have "(of_char c :: nat) mod 16 < 16" by simp
  then show "hex_val (hex_digit (of_char c mod 16)) = Some (of_char c mod 16)"
    by (rule hex_val_hex_digit)
  show "char_of ((of_char c :: nat) div 16 * 16 + of_char c mod 16) = c"
    by simp
qed

lemma hex_val_0: "hex_val (CHR ''0'') = Some 0"
  by (simp add: hex_val_def is_digit_def)

lemma parse_chars_quote_char:
  "parse_chars (quote_char c @ X) = cons_char c (parse_chars X)"
proof -
  consider (q) "c = QUOTE" | (b) "c = BACKSLASH"
    | (short) "c \<in> {CHR 0x08, CHR 0x09, CHR 0x0A, CHR 0x0C, CHR 0x0D}"
    | (ctl) "c \<noteq> QUOTE" "c \<noteq> BACKSLASH" "c \<notin> {CHR 0x08, CHR 0x09, CHR 0x0A, CHR 0x0C, CHR 0x0D}"
        "of_char c < (32 :: nat)"
    | (plain) "c \<noteq> QUOTE" "c \<noteq> BACKSLASH" "\<not> of_char c < (32 :: nat)"
    by blast
  then show ?thesis
  proof cases
    case q
    then show ?thesis by (simp add: quote_char_def QUOTE_def BACKSLASH_def unescape_def)
  next
    case b
    then show ?thesis by (simp add: quote_char_def QUOTE_def BACKSLASH_def unescape_def)
  next
    case short
    then show ?thesis
      by (auto simp: quote_char_def QUOTE_def BACKSLASH_def unescape_def)
  next
    case ctl
    then have "quote_char c = [BACKSLASH, CHR ''u'', CHR ''0'', CHR ''0'',
         hex_digit (of_char c div 16), hex_digit (of_char c mod 16)]"
      by (simp add: quote_char_def)
    then show ?thesis
      using control_hex [OF ctl(4)]
      by (simp add: hex_val_0 QUOTE_def BACKSLASH_def)
  next
    case plain
    then have q: "quote_char c = [c]"
      by (auto simp: quote_char_def)
    show ?thesis using plain by (simp add: q)
  qed
qed

lemma parse_chars_quoted:
  "parse_chars (concat (map quote_char s) @ QUOTE # rest) = Inr (s, rest)"
  by (induction s) (simp_all add: parse_chars_quote_char cons_char_def)

lemma skip_ws_id: "s = [] \<or> \<not> json_ws (hd s) \<Longrightarrow> skip_ws s = s"
  by (cases s) (auto simp: skip_ws_def)

lemma show_int_start: "show_int i \<noteq> [] \<and> (hd (show_int i) = CHR ''-'' \<or> is_digit (hd (show_int i)))"
proof -
  have "is_digit (hd (show_nat n))" for n
    using show_nat_digits [of n] show_nat_nonempty [of n] by (cases "show_nat n") auto
  then show ?thesis by (simp add: show_int_def show_nat_nonempty)
qed

lemma serialized_start:
  "SerializeJSONProperty v = Some t \<Longrightarrow> t \<noteq> [] \<and> value_start (hd t)"
  using show_int_start [of "case v of Num n \<Rightarrow> n | _ \<Rightarrow> 0"]
  by (cases v) (auto simp: value_start_def QuoteJSONString_def is_digit_def split: if_splits)

subsection \<open>Texts of arrays and objects\<close>

lemma join_Cons: "ys \<noteq> [] \<Longrightarrow> join sep (x # ys) = x @ sep @ join sep ys"
  by (cases ys) simp_all

lemma SerializeJSONArray_Nil_iff: "(SerializeJSONArray xs = []) = (xs = [])"
  by (cases xs) simp_all

lemma SerializeJSONObject_map:
  "SerializeJSONObject kvs = map (\<lambda>kv. (fst kv, SerializeJSONProperty (snd kv))) kvs"
  by (induction kvs) auto

lemma insort_key_map_fst:
  "insort_key (\<lambda>kv. f (fst kv)) (fst x, g (snd x)) (map (\<lambda>kv. (fst kv, g (snd kv))) ys)
     = map (\<lambda>kv. (fst kv, g (snd kv))) (insort_key (\<lambda>kv. f (fst kv)) x ys)"
  by (induction ys) simp_all

lemma sort_key_map_fst:
  "sort_key (\<lambda>kv. f (fst kv)) (map (\<lambda>kv. (fst kv, g (snd kv))) xs)
     = map (\<lambda>kv. (fst kv, g (snd kv))) (sort_key (\<lambda>kv. f (fst kv)) xs)"
  by (induction xs) (simp_all add: insort_key_map_fst)

lemma js_order_map:
  "js_order (map (\<lambda>kv. (fst kv, g (snd kv))) kvs) = map (\<lambda>kv. (fst kv, g (snd kv))) (js_order kvs)"
  by (simp add: js_order_def filter_map o_def sort_key_map_fst)

lemma members_text_Cons:
  assumes "SerializeJSONProperty v = Some t"
  shows "List.map_filter member_text (SerializeJSONObject ((k, v) # kvs))
     = (QuoteJSONString k @ '':'' @ t) # List.map_filter member_text (SerializeJSONObject kvs)"
  using assms by (simp add: map_filter_simps member_text_def)

lemma number_end_simps [simp]:
  "number_end (CHR '','' # r)" "number_end (CHR '']'' # r)" "number_end (CHR ''}'' # r)" "number_end []"
  by (simp_all add: number_end_def)

lemma value_start_not_ws: "value_start c \<Longrightarrow> \<not> json_ws c"
  by (auto simp: value_start_def json_ws_def QUOTE_def)

lemma value_start_not_close: "value_start c \<Longrightarrow> c \<noteq> CHR '']'' \<and> c \<noteq> CHR ''}''"
  by (auto simp: value_start_def QUOTE_def)

lemma skip_ws_value:
  "SerializeJSONProperty v = Some t \<Longrightarrow> skip_ws (t @ r) = t @ r"
  using serialized_start [of v t] value_start_not_ws
  by (intro skip_ws_id) (cases t; auto)

lemma skip_ws_punct [simp]:
  "skip_ws (CHR '','' # r) = CHR '','' # r" "skip_ws (CHR '']'' # r) = CHR '']'' # r"
  "skip_ws (CHR ''}'' # r) = CHR ''}'' # r" "skip_ws (CHR '':'' # r) = CHR '':'' # r"
  "skip_ws (QUOTE # r) = QUOTE # r" "skip_ws [] = []"
  by (simp_all add: skip_ws_def json_ws_def QUOTE_def)

lemma json_ok_serialized: "json_ok v \<Longrightarrow> \<exists>t. SerializeJSONProperty v = Some t"
  by (cases v) simp_all

lemma hd_join: "a \<noteq> [] \<Longrightarrow> hd (join sep (a # as)) = hd a \<and> join sep (a # as) \<noteq> []"
  by (cases as) simp_all

lemma elements_start:
  assumes "json_ok_list xs" "xs \<noteq> []"
  shows "join '','' (SerializeJSONArray xs) \<noteq> [] \<and> value_start (hd (join '','' (SerializeJSONArray xs)))"
proof -
  obtain x xs' where xs: "xs = x # xs'" using assms(2) by (cases xs) auto
  then obtain t where t: "SerializeJSONProperty x = Some t"
    using assms(1) json_ok_serialized by auto
  from serialized_start [OF t] hd_join [of t "'',''" "SerializeJSONArray xs'"]
  show ?thesis by (simp add: xs t)
qed

lemma parse_value_empty_array: "parse_value (Suc n) (''[]'' @ rest) = Inr (Arr [], rest)"
  by simp

lemma parse_value_empty_object: "parse_value (Suc n) (''{}'' @ rest) = Inr (Obj [], rest)"
  by simp

lemma parse_value_array:
  assumes "parse_elements n body = Inr (xs, rest)" "body \<noteq> []" "value_start (hd body)"
  shows "parse_value (Suc n) (CHR ''['' # body) = Inr (Arr xs, rest)"
proof -
  have "skip_ws body = body" using assms(2,3) value_start_not_ws by (intro skip_ws_id) auto
  moreover have "hd body \<noteq> CHR '']''" using assms(3) value_start_not_close by auto
  ultimately show ?thesis using assms(1,2) by simp
qed

lemma QUOTE_neq [simp]:
  "QUOTE \<noteq> CHR ''}''" "QUOTE \<noteq> CHR ''{''" "QUOTE \<noteq> CHR ''[''" "QUOTE \<noteq> CHR '']''"
  "QUOTE \<noteq> BACKSLASH" "CHR '':'' \<noteq> QUOTE" "CHR ''{'' \<noteq> QUOTE" "CHR ''['' \<noteq> QUOTE"
  by (simp_all add: QUOTE_def BACKSLASH_def)

lemma parse_value_object:
  assumes "parse_members n [] (QUOTE # body) = Inr (obj, rest)"
  shows "parse_value (Suc n) (CHR ''{'' # QUOTE # body) = Inr (obj, rest)"
  using assms by simp

lemma parse_value_string: "parse_value (Suc n) (QuoteJSONString s @ rest) = Inr (Str s, rest)"
  by (simp add: QuoteJSONString_def parse_chars_quoted)

lemma parse_value_number:
  assumes "number_end rest"
  shows "parse_value (Suc n) (show_int i @ rest) = Inr (Num i, rest)"
proof -
  obtain c r where s: "show_int i = c # r" and c: "c = CHR ''-'' \<or> is_digit c"
    using show_int_start [of i] by (cases "show_int i") auto
  have "c \<noteq> CHR ''{''" "c \<noteq> CHR ''[''" "c \<noteq> QUOTE" "c \<noteq> CHR ''n''" "c \<noteq> CHR ''t''" "c \<noteq> CHR ''f''"
    using c by (auto simp: is_digit_def QUOTE_def)
  then have "parse_value (Suc n) (c # r @ rest) = parse_number (c # r @ rest)"
    by (auto simp: take_Suc_conv_app_nth numeral_eq_Suc)
  then show ?thesis using parse_int_text [OF assms, of i] s by simp
qed

lemma parse_elements_last:
  assumes "parse_value n (t @ CHR '']'' # rest) = Inr (x, CHR '']'' # rest)"
  shows "parse_elements (Suc n) (t @ CHR '']'' # rest) = Inr ([x], rest)"
  using assms by simp

lemma parse_elements_more:
  assumes "parse_value n (t @ CHR '','' # nxt) = Inr (x, CHR '','' # nxt)"
    and "skip_ws nxt = nxt" and "parse_elements n nxt = Inr (xs, rest)"
  shows "parse_elements (Suc n) (t @ CHR '','' # nxt) = Inr (x # xs, rest)"
  using assms by simp

lemma parse_members_last:
  assumes "SerializeJSONProperty v = Some t"
    and "parse_value n (t @ CHR ''}'' # rest) = Inr (v, CHR ''}'' # rest)"
  shows "parse_members (Suc n) acc ((QuoteJSONString k @ '':'' @ t) @ CHR ''}'' # rest)
     = Inr (Obj (AList.update k v acc), rest)"
  using assms skip_ws_value [OF assms(1)]
  by (simp add: QuoteJSONString_def parse_chars_quoted)

lemma parse_members_more:
  assumes "SerializeJSONProperty v = Some t"
    and "parse_value n (t @ CHR '','' # nxt) = Inr (v, CHR '','' # nxt)"
    and "skip_ws nxt = nxt"
    and "parse_members n (AList.update k v acc) nxt = Inr (obj, rest)"
  shows "parse_members (Suc n) acc ((QuoteJSONString k @ '':'' @ t) @ CHR '','' # nxt) = Inr (obj, rest)"
  using assms skip_ws_value [OF assms(1)]
  by (simp add: QuoteJSONString_def parse_chars_quoted)

lemma update_fresh: "k \<notin> fst ` set acc \<Longrightarrow> AList.update k v acc = acc @ [(k, v)]"
  by (induction acc) auto

subsection \<open>Decoding an encoded value\<close>

lemma members_start:
  assumes "json_ok_members kvs" "kvs \<noteq> []"
  shows "\<exists>body. members_text kvs = QUOTE # body"
proof -
  obtain k v kvs' where kvs: "kvs = (k, v) # kvs'" using assms(2) by (cases kvs) auto
  then obtain t where t: "SerializeJSONProperty v = Some t"
    using assms(1) json_ok_serialized by auto
  show ?thesis
    unfolding members_text_def kvs members_text_Cons [OF t]
    by (cases "List.map_filter member_text (SerializeJSONObject kvs')")
       (simp_all add: QuoteJSONString_def)
qed

lemma members_text_Nil_iff:
  "json_ok_members kvs \<Longrightarrow> (List.map_filter member_text (SerializeJSONObject kvs) = []) = (kvs = [])"
proof (cases kvs)
  case Nil
  then show ?thesis by (simp add: map_filter_simps)
next
  case (Cons kv kvs')
  assume ok: "json_ok_members kvs"
  obtain k v where kv: "kv = (k, v)" by (cases kv)
  then obtain t where t: "SerializeJSONProperty v = Some t"
    using ok Cons json_ok_serialized by auto
  show ?thesis unfolding Cons kv members_text_Cons [OF t] by simp
qed

lemma roundtrip_value:
  "json_ok v \<Longrightarrow>
     \<exists>t. SerializeJSONProperty v = Some t \<and>
       (\<forall>n rest. 2 * length t \<le> n \<longrightarrow> number_end rest \<longrightarrow>
          parse_value n (t @ rest) = Inr (v, rest))"
  and roundtrip_elements:
  "json_ok_list xs \<Longrightarrow> xs \<noteq> [] \<Longrightarrow>
     \<forall>n rest. 2 * length (join '','' (SerializeJSONArray xs)) + 2 \<le> n \<longrightarrow>
        parse_elements n (join '','' (SerializeJSONArray xs) @ CHR '']'' # rest) = Inr (xs, rest)"
  and roundtrip_members:
  "json_ok_members kvs \<Longrightarrow> kvs \<noteq> [] \<Longrightarrow> distinct (map fst kvs) \<Longrightarrow>
     \<forall>n acc rest. fst ` set acc \<inter> fst ` set kvs = {} \<longrightarrow>
        2 * length (members_text kvs) + 2 \<le> n \<longrightarrow>
        parse_members n acc (members_text kvs @ CHR ''}'' # rest) = Inr (Obj (acc @ kvs), rest)"
proof (induction v and xs and kvs
    rule: SerializeJSONProperty_SerializeJSONArray_SerializeJSONObject.induct)
  case 1
  then show ?case by simp
next
  case 2
  then show ?case by simp
next
  case 3
  have "parse_value n (''null'' @ rest) = Inr (Null, rest)" if "8 \<le> n" for n rest
    using that by (cases n) (simp_all add: QUOTE_def)
  then show ?case by simp
next
  case 4
  then show ?case by simp
next
  case (5 b)
  have "parse_value n (''true'' @ rest) = Inr (Bool True, rest)" if "8 \<le> n" for n rest
    using that by (cases n) (simp_all add: QUOTE_def)
  moreover have "parse_value n (''false'' @ rest) = Inr (Bool False, rest)" if "10 \<le> n" for n rest
    using that by (cases n) (simp_all add: QUOTE_def)
  ultimately show ?case by (cases b) simp_all
next
  case (6 i)
  have "parse_value n (show_int i @ rest) = Inr (Num i, rest)"
    if "2 * length (show_int i) \<le> n" "number_end rest" for n rest
  proof -
    have "n \<noteq> 0" using that(1) show_int_start [of i] by (cases "show_int i") auto
    then obtain m where "n = Suc m" by (cases n) auto
    then show ?thesis using parse_value_number [OF that(2)] by simp
  qed
  then show ?case by simp
next
  case (7 s)
  have "parse_value n (QuoteJSONString s @ rest) = Inr (Str s, rest)"
    if "2 * length (QuoteJSONString s) \<le> n" for n rest
  proof -
    have "n \<noteq> 0" using that by (auto simp: QuoteJSONString_def)
    then obtain m where "n = Suc m" by (cases n) auto
    then show ?thesis using parse_value_string by simp
  qed
  then show ?case by simp
next
  case (8 xs)
  let ?body = "join '','' (SerializeJSONArray xs)"
  have "parse_value n ((''['' @ ?body @ '']'') @ rest) = Inr (Arr xs, rest)"
    if n: "2 * length (''['' @ ?body @ '']'') \<le> n" for n rest
  proof -
    obtain m where m: "n = Suc m" using n by (cases n) auto
    show ?thesis
    proof (cases "xs = []")
      case True
      then show ?thesis using parse_value_empty_array [of m rest] m by simp
    next
      case False
      have ok: "json_ok_list xs" using 8 by simp
      have "2 * length ?body + 2 \<le> m" using n m by simp
      with "8.IH" [OF ok False]
      have pe: "parse_elements m (?body @ CHR '']'' # rest) = Inr (xs, rest)" by blast
      from elements_start [OF ok False]
      have "?body @ CHR '']'' # rest \<noteq> []" "value_start (hd (?body @ CHR '']'' # rest))"
        by simp_all
      from parse_value_array [OF pe this] show ?thesis using m by simp
    qed
  qed
  then show ?case by simp
next
  case (9 kvs)
  have ok: "json_ok_members kvs" and dist: "distinct (map fst kvs)" and ord: "js_order kvs = kvs"
    using 9 by simp_all
  have "js_order (SerializeJSONObject kvs) = SerializeJSONObject kvs"
    by (simp add: SerializeJSONObject_map js_order_map ord)
  then have ser: "SerializeJSONProperty (Obj kvs) = Some (''{'' @ members_text kvs @ ''}'')"
    by (simp add: members_text_def)
  have "parse_value n ((''{'' @ members_text kvs @ ''}'') @ rest) = Inr (Obj kvs, rest)"
    if n: "2 * length (''{'' @ members_text kvs @ ''}'') \<le> n" for n rest
  proof -
    obtain m where m: "n = Suc m" using n by (cases n) auto
    show ?thesis
    proof (cases "kvs = []")
      case True
      then show ?thesis using parse_value_empty_object [of m rest] m
        by (simp add: members_text_def map_filter_simps)
    next
      case False
      have "2 * length (members_text kvs) + 2 \<le> m" using n m by simp
      with "9.IH" [OF ok False dist, rule_format, of "[]" m rest]
      have pm: "parse_members m [] (members_text kvs @ CHR ''}'' # rest) = Inr (Obj ([] @ kvs), rest)"
        by simp
      from members_start [OF ok False] obtain body where b: "members_text kvs = QUOTE # body"
        by blast
      from parse_value_object [of m "body @ CHR ''}'' # rest" "Obj kvs" rest] pm
      show ?thesis using m by (simp add: b)
    qed
  qed
  with ser show ?case by blast
next
  case 10
  then show ?case by simp
next
  case (11 x xs)
  have okx: "json_ok x" and okxs: "json_ok_list xs" using "11.prems" by simp_all
  from "11.IH"(1) [OF okx] obtain t where t: "SerializeJSONProperty x = Some t"
    and px: "\<And>n rest. 2 * length t \<le> n \<Longrightarrow> number_end rest \<Longrightarrow>
          parse_value n (t @ rest) = Inr (x, rest)"
    by blast
  show ?case
  proof (intro allI impI)
    fix n rest
    assume n: "2 * length (join '','' (SerializeJSONArray (x # xs))) + 2 \<le> n"
    then obtain m where m: "n = Suc m" by (cases n) auto
    show "parse_elements n (join '','' (SerializeJSONArray (x # xs)) @ CHR '']'' # rest)
        = Inr (x # xs, rest)"
    proof (cases "xs = []")
      case True
      have "2 * length t \<le> m" using n m True t by simp
      from px [OF this, of "CHR '']'' # rest"]
      have "parse_value m (t @ CHR '']'' # rest) = Inr (x, CHR '']'' # rest)" by simp
      from parse_elements_last [OF this] show ?thesis using True t m by simp
    next
      case False
      let ?nxt = "join '','' (SerializeJSONArray xs)"
      have j: "join '','' (SerializeJSONArray (x # xs)) = t @ '','' @ ?nxt"
        using False t by (simp add: join_Cons SerializeJSONArray_Nil_iff)
      have "2 * length t \<le> m" using n m j by simp
      from px [OF this, of "CHR '','' # ?nxt @ CHR '']'' # rest"]
      have 1: "parse_value m (t @ CHR '','' # ?nxt @ CHR '']'' # rest)
          = Inr (x, CHR '','' # ?nxt @ CHR '']'' # rest)" by simp
      from elements_start [OF okxs False] value_start_not_ws
      have 2: "skip_ws (?nxt @ CHR '']'' # rest) = ?nxt @ CHR '']'' # rest"
        by (intro skip_ws_id) auto
      have "2 * length ?nxt + 2 \<le> m" using n m j by simp
      with "11.IH"(2) [OF okxs False]
      have 3: "parse_elements m (?nxt @ CHR '']'' # rest) = Inr (xs, rest)" by blast
      from parse_elements_more [OF 1 2 3] show ?thesis using m j by simp
    qed
  qed
next
  case 12
  then show ?case by simp
next
  case (13 k v kvs)
  have okv: "json_ok v" and okkvs: "json_ok_members kvs" using "13.prems" by simp_all
  have dist: "distinct (map fst kvs)" and fresh: "k \<notin> fst ` set kvs" using "13.prems" by auto
  from "13.IH"(1) [OF okv] obtain t where t: "SerializeJSONProperty v = Some t"
    and pv: "\<And>n rest. 2 * length t \<le> n \<Longrightarrow> number_end rest \<Longrightarrow>
          parse_value n (t @ rest) = Inr (v, rest)"
    by blast
  let ?m = "QuoteJSONString k @ '':'' @ t"
  show ?case
  proof (intro allI impI)
    fix n and acc :: "(string \<times> js) list" and rest
    assume disj: "fst ` set acc \<inter> fst ` set ((k, v) # kvs) = {}"
      and n: "2 * length (members_text ((k, v) # kvs)) + 2 \<le> n"
    then obtain m where m: "n = Suc m" by (cases n) auto
    have kacc: "k \<notin> fst ` set acc" using disj by auto
    have upd: "AList.update k v acc = acc @ [(k, v)]" using kacc by (rule update_fresh)
    show "parse_members n acc (members_text ((k, v) # kvs) @ CHR ''}'' # rest)
        = Inr (Obj (acc @ (k, v) # kvs), rest)"
    proof (cases "kvs = []")
      case True
      have mt: "members_text ((k, v) # kvs) = ?m"
        using True t by (simp add: members_text_def map_filter_simps member_text_def)
      have "2 * length t \<le> m" using n m mt by simp
      from pv [OF this, of "CHR ''}'' # rest"]
      have "parse_value m (t @ CHR ''}'' # rest) = Inr (v, CHR ''}'' # rest)" by simp
      from parse_members_last [OF t this, of acc k] show ?thesis
        using True m mt upd by simp
    next
      case False
      let ?nxt = "members_text kvs"
      have mt: "members_text ((k, v) # kvs) = ?m @ '','' @ ?nxt"
        unfolding members_text_def members_text_Cons [OF t]
        using False members_text_Nil_iff [OF okkvs] by (simp add: join_Cons)
      have "2 * length t \<le> m" using n m mt by simp
      from pv [OF this, of "CHR '','' # ?nxt @ CHR ''}'' # rest"]
      have 1: "parse_value m (t @ CHR '','' # ?nxt @ CHR ''}'' # rest)
          = Inr (v, CHR '','' # ?nxt @ CHR ''}'' # rest)" by simp
      from members_start [OF okkvs False] obtain body where b: "?nxt = QUOTE # body" by blast
      have 2: "skip_ws (?nxt @ CHR ''}'' # rest) = ?nxt @ CHR ''}'' # rest"
        by (simp add: b)
      have d2: "fst ` set (AList.update k v acc) \<inter> fst ` set kvs = {}"
        using disj fresh by (auto simp: upd)
      have "2 * length ?nxt + 2 \<le> m" using n m mt by simp
      with "13.IH"(2) [OF okkvs False dist] d2
      have 3: "parse_members m (AList.update k v acc) (?nxt @ CHR ''}'' # rest)
          = Inr (Obj (AList.update k v acc @ kvs), rest)" by blast
      from parse_members_more [OF t 1 2 3] show ?thesis
        using m mt upd by simp
    qed
  qed
qed

subsection \<open>The order of the keys\<close>

lemma js_order_idem: "js_order (js_order kvs) = js_order kvs"
proof -
  let ?P = "\<lambda>kv. is_index_key (fst kv)" and ?f = "\<lambda>kv. digits_val (fst kv)"
  let ?S = "sort_key ?f (filter ?P kvs)" and ?N = "filter (\<lambda>kv. \<not> ?P kv) kvs"
  have 1: "filter ?P (?S @ ?N) = ?S"
    by (simp add: filter_sort)
  have 2: "filter (\<lambda>kv. \<not> ?P kv) (?S @ ?N) = ?N"
    by (simp add: filter_sort)
  have 3: "sort_key ?f ?S = ?S"
    by (rule sort_key_id_if_sorted) (rule sorted_sort_key)
  show ?thesis
    unfolding js_order_def 1 2 3 ..
qed

lemma mset_js_order: "mset (js_order kvs) = mset kvs"
  by (simp add: js_order_def multiset_partition [symmetric])

lemma distinct_js_order: "distinct (map fst (js_order kvs)) = distinct (map fst kvs)"
proof -
  have "mset (map fst (js_order kvs)) = mset (map fst kvs)"
    by (simp add: mset_js_order)
  then show ?thesis by (rule mset_eq_imp_distinct_iff)
qed

lemma map_of_js_order:
  assumes "distinct (map fst kvs)"
  shows "map_of (js_order kvs) = map_of kvs"
proof -
  have "set (js_order kvs) = set kvs"
    using mset_js_order [of kvs] by (rule mset_eq_setD)
  moreover have "distinct (map fst (js_order kvs))"
    using assms by (simp add: distinct_js_order)
  ultimately show ?thesis using assms by (simp add: map_of_inject_set)
qed

lemma js_order_no_index: "list_all (\<lambda>kv. \<not> is_index_key (fst kv)) kvs \<Longrightarrow> js_order kvs = kvs"
  by (simp add: js_order_def list_all_iff filter_empty_conv filter_id_conv)

lemma json_ok_strings: "json_ok_list (map Str xs)"
  by (induction xs) simp_all

lemma not_index_names:
  "\<not> is_index_key ''A''" "\<not> is_index_key ''CNAME''" "\<not> is_index_key ''MX''"
  "\<not> is_index_key ''priority''" "\<not> is_index_key ''exchange''"
  by (simp_all add: is_index_key_def array_index_def is_digit_def)

lemma json_ok_mx: "json_ok (js_of_mx m)"
  by (simp add: js_of_mx_def js_order_no_index not_index_names)

lemma json_ok_mxs: "json_ok_list (map js_of_mx ms)"
  by (induction ms) (simp_all add: json_ok_mx)

lemma json_ok_TypeRecords: "json_ok (js_of_TypeRecords tr)"
proof -
  have m: "json_ok_members (js_entry k (map_option f x))" if "\<And>y. json_ok (f y)" for k f and x :: "'a option"
    using that by (cases x) (simp_all add: js_entry_def)
  have app: "json_ok_members (xs @ ys)" if "json_ok_members xs" "json_ok_members ys" for xs ys
    using that by (induction xs) auto
  let ?kvs = "js_entry ''A'' (map_option (\<lambda>xs. Arr (map Str xs)) (rec_A tr)) @
          js_entry ''CNAME'' (map_option (\<lambda>xs. Arr (map Str xs)) (rec_CNAME tr)) @
          js_entry ''MX'' (map_option (\<lambda>ms. Arr (map js_of_mx ms)) (rec_MX tr))"
  have 1: "json_ok_members ?kvs"
    by (intro app m) (simp_all add: json_ok_strings json_ok_mxs)
  have 2: "distinct (map fst ?kvs)"
    by (simp add: js_entry_def split: option.splits)
  have "list_all (\<lambda>kv. \<not> is_index_key (fst kv)) ?kvs"
    by (simp add: js_entry_def not_index_names split: option.splits)
  then have 3: "js_order ?kvs = ?kvs" by (rule js_order_no_index)
  show ?thesis using 1 2 3 by (simp add: js_of_TypeRecords_def)
qed

lemma json_ok_members_map:
  "json_ok_members (map (\<lambda>kv. (fst kv, f (snd kv))) kvs) = list_all (\<lambda>kv. json_ok (f (snd kv))) kvs"
  by (induction kvs) auto

lemma json_ok_members_mset:
  "json_ok_members kvs = (\<forall>kv \<in> set kvs. json_ok (snd kv))"
  by (induction kvs) auto

lemma serialize_js_order:
  "SerializeJSONProperty (Obj (js_order kvs)) = SerializeJSONProperty (Obj kvs)"
proof -
  have "js_order (SerializeJSONObject (js_order kvs)) = js_order (SerializeJSONObject kvs)"
    by (simp only: SerializeJSONObject_map js_order_map js_order_idem)
  then show ?thesis by simp
qed

subsection \<open>The round trip\<close>

lemma JSON_roundtrip:
  assumes "json_ok v"
  shows "\<exists>t. JSON_stringify v = Some t \<and> JSON_parse t = Inr v"
proof -
  from roundtrip_value [OF assms] obtain t where t: "SerializeJSONProperty v = Some t"
    and p: "\<And>n rest. 2 * length t \<le> n \<Longrightarrow> number_end rest \<Longrightarrow>
          parse_value n (t @ rest) = Inr (v, rest)"
    by blast
  have "parse_value (2 * length t + 1) (t @ []) = Inr (v, [])"
    by (rule p) simp_all
  moreover have "skip_ws t = t" using skip_ws_value [OF t, of "[]"] by simp
  ultimately have "JSON_parse t = Inr v" by (simp add: JSON_parse_def)
  with t show ?thesis by (simp add: JSON_stringify_def)
qed

text \<open>
  Claim C5. For a valid record set, one whose labels are distinct, the encoder yields a
  text, and the decoder turns that text into an object whose own properties are exactly
  the entries of the record set: every label is mapped to its type records as they were.
  Unless a label is an array index, which the encoder moves to the front, the decoded
  object is the very value that was encoded.
\<close>

theorem decode_encode_RecordSet:
  assumes "distinct (map fst rs)"
  shows "\<exists>blob kvs. JSON_stringify (js_of_RecordSet rs) = Some blob \<and>
           JSON_parse blob = Inr (Obj kvs) \<and>
           (\<forall>label. map_of kvs label = map_option js_of_TypeRecords (map_of rs label)) \<and>
           (list_all (\<lambda>entry. \<not> is_index_key (fst entry)) rs \<longrightarrow>
              Obj kvs = js_of_RecordSet rs)"
proof -
  let ?kvs = "map (\<lambda>(label, tr). (label, js_of_TypeRecords tr)) rs"
  have d: "distinct (map fst ?kvs)" using assms by (simp add: comp_def case_prod_beta)
  have "json_ok_members (js_order ?kvs)"
    unfolding json_ok_members_mset
    using mset_eq_setD [OF mset_js_order [of ?kvs]] by (auto simp: json_ok_TypeRecords)
  then have ok: "json_ok (Obj (js_order ?kvs))"
    using d by (simp add: js_order_idem distinct_js_order)
  have same: "JSON_stringify (Obj (js_order ?kvs)) = JSON_stringify (js_of_RecordSet rs)"
    unfolding JSON_stringify_def js_of_RecordSet_def by (rule serialize_js_order)
  from JSON_roundtrip [OF ok] obtain blob where
    "JSON_stringify (Obj (js_order ?kvs)) = Some blob" "JSON_parse blob = Inr (Obj (js_order ?kvs))"
    by blast
  moreover have "map_of (js_order ?kvs) label = map_option js_of_TypeRecords (map_of rs label)" for label
    using own_prop_RecordSet [of rs label]
    by (simp add: map_of_js_order [OF d] js_of_RecordSet_def)
  moreover have "Obj (js_order ?kvs) = js_of_RecordSet rs"
    if "list_all (\<lambda>entry. \<not> is_index_key (fst entry)) rs"
  proof -
    have "list_all (\<lambda>kv. \<not> is_index_key (fst kv)) ?kvs"
      using that by (simp add: list_all_iff case_prod_beta)
    then show ?thesis by (simp add: js_order_no_index js_of_RecordSet_def)
  qed
  ultimately show ?thesis using same by auto
qed

theorem decode_encode_RecordSet_witness:
  "distinct (map fst
      [(''www'', \<lparr> rec_A = None, rec_CNAME = Some [''a.com.''], rec_MX = None \<rparr>),
       (''@'', \<lparr> rec_A = Some [''1.1.1.1''], rec_CNAME = None,
                 rec_MX = Some [\<lparr> mx_priority = 10, mx_exchange = ''mail.x.com.'' \<rparr>] \<rparr>)]) \<and>
   (\<exists>blob kvs.
      JSON_stringify (js_of_RecordSet
        [(''www'', \<lparr> rec_A = None, rec_CNAME = Some [''a.com.''], rec_MX = None \<rparr>),
         (''@'', \<lparr> rec_A = Some [''1.1.1.1''], rec_CNAME = None,
                   rec_MX = Some [\<lparr> mx_priority = 10, mx_exchange = ''mail.x.com.'' \<rparr>] \<rparr>)])
        = Some blob \<and>
      JSON_parse blob = Inr (Obj kvs) \<and>
      map_of kvs ''@'' = Some (js_of_TypeRecords \<lparr> rec_A = Some [''1.1.1.1''], rec_CNAME = None,
                   rec_MX = Some [\<lparr> mx_priority = 10, mx_exchange = ''mail.x.com.'' \<rparr>] \<rparr>) \<and>
      map_of kvs ''www'' = Some (js_of_TypeRecords \<lparr> rec_A = None, rec_CNAME = Some [''a.com.''], rec_MX = None \<rparr>) \<and>
      map_of kvs ''mail'' = None \<and>
      Obj kvs = js_of_RecordSet
        [(''www'', \<lparr> rec_A = None, rec_CNAME = Some [''a.com.''], rec_MX = None \<rparr>),
         (''@'', \<lparr> rec_A = Some [''1.1.1.1''], rec_CNAME = None,
                   rec_MX = Some [\<lparr> mx_priority = 10, mx_exchange = ''mail.x.com.'' \<rparr>] \<rparr>)])"
proof -
  let ?rs = "[(''www'', \<lparr> rec_A = None, rec_CNAME = Some [''a.com.''], rec_MX = None \<rparr>),
       (''@'', \<lparr> rec_A = Some [''1.1.1.1''], rec_CNAME = None,
                 rec_MX = Some [\<lparr> mx_priority = 10, mx_exchange = ''mail.x.com.'' \<rparr>] \<rparr>)]"
  have d: "distinct (map fst ?rs)" by simp
  from decode_encode_RecordSet [OF d] obtain blob kvs where
    1: "JSON_stringify (js_of_RecordSet ?rs) = Some blob" and 2: "JSON_parse blob = Inr (Obj kvs)"
    and 3: "\<forall>label. map_of kvs label = map_option js_of_TypeRecords (map_of ?rs label)"
    and 4: "list_all (\<lambda>entry. \<not> is_index_key (fst entry)) ?rs \<longrightarrow> Obj kvs = js_of_RecordSet ?rs"
    by blast
  have "list_all (\<lambda>entry. \<not> is_index_key (fst entry)) ?rs"
    by (simp add: is_index_key_def array_index_def is_digit_def)
  with 4 have 5: "Obj kvs = js_of_RecordSet ?rs" by blast
  from 3 have "map_of kvs ''@'' = map_option js_of_TypeRecords (map_of ?rs ''@'')"
    "map_of kvs ''www'' = map_option js_of_TypeRecords (map_of ?rs ''www'')"
    "map_of kvs ''mail'' = map_option js_of_TypeRecords (map_of ?rs ''mail'')"
    by blast+
  then have "map_of kvs ''@'' = Some (js_of_TypeRecords \<lparr> rec_A = Some [''1.1.1.1''], rec_CNAME = None,
                   rec_MX = Some [\<lparr> mx_priority = 10, mx_exchange = ''mail.x.com.'' \<rparr>] \<rparr>)"
    "map_of kvs ''www'' = Some (js_of_TypeRecords \<lparr> rec_A = None, rec_CNAME = Some [''a.com.''], rec_MX = None \<rparr>)"
    "map_of kvs ''mail'' = None"
    by simp_all
  with d 1 2 5 show ?thesis by blast
qed

section \<open>Properties of the record writer\<close>

lemma split_at_sep: "c \<notin> set p \<Longrightarrow> split c (p @ c # rest) = p # split c rest"
  by (induction p) (auto simp: Let_def)

lemma priority_space_exchange_split:
  assumes "priority_space_exchange s"
  shows "split (CHR '' '') s = [fst (spec_split_first_whitespace s), snd (spec_split_first_whitespace s)]"
proof -
  let ?p = "takeWhile (\<lambda>c. \<not> is_whitespace c) s"
  obtain rest where d: "dropWhile (\<lambda>c. \<not> is_whitespace c) s = CHR '' '' # rest"
    and r: "CHR '' '' \<notin> set rest"
    using assms by (auto simp: priority_space_exchange_def split: list.splits)
  have s: "s = ?p @ CHR '' '' # rest"
    using d takeWhile_dropWhile_id [of "\<lambda>c. \<not> is_whitespace c" s] by simp
  have ws: "is_whitespace (CHR '' '')" by (simp add: is_whitespace_def)
  have p: "CHR '' '' \<notin> set ?p"
    using ws by (auto dest: set_takeWhileD)
  have "split (CHR '' '') (?p @ CHR '' '' # rest) = ?p # split (CHR '' '') rest"
    using p by (rule split_at_sep)
  also have "split (CHR '' '') rest = [rest]" using r by (rule split_no_sep)
  finally have "split (CHR '' '') s = [?p, rest]" using s by simp
  then show ?thesis using d by (simp add: spec_split_first_whitespace_def)
qed

lemma formatMX_priority_space_exchange:
  "priority_space_exchange (trim v) \<Longrightarrow> formatMX v = Inr (spec_normalize_MX_segment (trim v))"
  by (simp add: formatMX_def priority_space_exchange_split spec_normalize_MX_segment_def split_beta)

lemma map_raising_Inr:
  "list_all (\<lambda>x. f x = Inr (g x)) xs \<Longrightarrow> map_raising f xs = Inr (map g xs)"
  by (induction xs) simp_all

text \<open>On segments of the form \<^verbatim>\<open>priority exchange\<close> the code splits where the
  specification's rule does, at the first white space.\<close>

lemma formatValue_MX_first_whitespace:
  "list_all (\<lambda>seg. priority_space_exchange (trim seg)) (split (CHR '','') value) \<Longrightarrow>
     formatValue ''MX'' value
       = Inr (Arr (map (\<lambda>seg. spec_normalize_MX_segment (trim seg)) (split (CHR '','') value)))"
proof -
  assume "list_all (\<lambda>seg. priority_space_exchange (trim seg)) (split (CHR '','') value)"
  then have "list_all (\<lambda>seg. formatMX seg = Inr (spec_normalize_MX_segment (trim seg)))
               (split (CHR '','') value)"
    by (simp add: list_all_iff formatMX_priority_space_exchange)
  then show ?thesis
    by (simp add: formatValue_def map_raising_Inr)
qed


lemma show_int_chars: "c \<in> set (show_int p) \<Longrightarrow> c = CHR ''-'' \<or> is_digit c"
  using show_nat_digits [of "nat (- p)"] show_nat_digits [of "nat p"]
  by (auto simp: show_int_def list_all_iff split: if_splits)

lemma show_int_no_space: "CHR '' '' \<notin> set (show_int p)"
  using show_int_chars [of "CHR '' ''" p] by (auto simp: is_digit_def)

lemma takeWhile_all: "\<forall>x \<in> set xs. P x \<Longrightarrow> takeWhile P xs = xs"
  by (simp add: takeWhile_eq_all_conv)

lemma parseInt_show_int: "parseInt (show_int p) = Num p"
proof -
  have ws: "\<not> is_whitespace c" if "c = CHR ''-'' \<or> is_digit c" for c
    using that by (auto simp: is_whitespace_def is_digit_def)
  obtain d ds where n: "show_nat (nat \<bar>p\<bar>) = d # ds"
    using show_nat_nonempty [of "nat \<bar>p\<bar>"] by (cases "show_nat (nat \<bar>p\<bar>)") auto
  have digits: "is_digit d" "\<forall>x \<in> set ds. is_digit x"
    using show_nat_digits [of "nat \<bar>p\<bar>"] n by (simp_all add: list_all_iff)
  then have sign: "d \<noteq> CHR ''-''" "d \<noteq> CHR ''+''" by (auto simp: is_digit_def)
  have val: "digits_val (d # ds) = nat \<bar>p\<bar>"
    using digits_val_show_nat [of "nat \<bar>p\<bar>"] n by simp
  show ?thesis
  proof (cases "p < 0")
    case True
    then have "show_int p = CHR ''-'' # d # ds"
      using n by (simp add: show_int_def abs_if)
    then show ?thesis
      using True digits val ws [of "CHR ''-''"]
      by (simp add: parseInt_def trimStart_def Let_def takeWhile_all)
  next
    case False
    then have "show_int p = d # ds"
      using n by (simp add: show_int_def abs_if)
    then show ?thesis
      using False digits val sign ws [of d]
      by (simp add: parseInt_def trimStart_def Let_def takeWhile_all)
  qed
qed

lemma formatMX_segment:
  assumes "priority_exchange_segment seg p e"
  shows "formatMX seg = Inr (spec_MX_record p e)"
proof -
  have t: "trim seg = show_int p @ CHR '' '' # e" and e: "CHR '' '' \<notin> set e"
    using assms by (simp_all add: priority_exchange_segment_def)
  have "split (CHR '' '') (show_int p @ CHR '' '' # e) = show_int p # split (CHR '' '') e"
    using show_int_no_space by (rule split_at_sep)
  also have "split (CHR '' '') e = [e]" using e by (rule split_no_sep)
  finally show ?thesis
    by (simp add: formatMX_def t parseInt_show_int spec_MX_record_def)
qed

lemma map_raising_list_all2:
  "list_all2 (\<lambda>x y. f x = Inr (g y)) xs ys \<Longrightarrow> map_raising f xs = Inr (map g ys)"
  by (induction xs ys rule: list_all2_induct) simp_all

text \<open>
  Claim C8, as the code has it. When every comma-separated segment of the raw \<^verbatim>\<open>MX\<close>
  value, once trimmed, is the decimal text of an integer of magnitude at most
  \<^verbatim>\<open>Number.MAX_SAFE_INTEGER\<close>, one space, and an exchange without a space, the writer's
  normalisation yields, segment by segment, the record of that integer as the priority and
  of the exchange, to which a dot is appended if and only if it does not end in one.
\<close>

theorem formatValue_MX:
  "list_all2 (\<lambda>seg pe. priority_exchange_segment seg (fst pe) (snd pe))
       (split (CHR '','') value) pes \<Longrightarrow>
     formatValue ''MX'' value = Inr (Arr (map (\<lambda>pe. spec_MX_record (fst pe) (snd pe)) pes))"
proof -
  assume "list_all2 (\<lambda>seg pe. priority_exchange_segment seg (fst pe) (snd pe))
       (split (CHR '','') value) pes"
  then have "list_all2 (\<lambda>seg pe. formatMX seg = Inr (spec_MX_record (fst pe) (snd pe)))
       (split (CHR '','') value) pes"
    by (rule list_all2_mono) (rule formatMX_segment)
  then have "map_raising formatMX (split (CHR '','') value)
      = Inr (map (\<lambda>pe. spec_MX_record (fst pe) (snd pe)) pes)"
    by (rule map_raising_list_all2)
  then show ?thesis by (simp add: formatValue_def)
qed

lemma split_usage_example: "split (CHR '','') ''10 mail1.example.com., 20 mail2.example.com''
   = [''10 mail1.example.com.'', '' 20 mail2.example.com'']"
  by (simp add: Let_def)

lemma trim_usage_example: "trim ''10 mail1.example.com.'' = ''10 mail1.example.com.''"
  "trim '' 20 mail2.example.com'' = ''20 mail2.example.com''"
  by (simp_all add: trim_def is_whitespace_def)

lemma show_int_usage_example: "show_int 10 = ''10''" "show_int 20 = ''20''"
  by code_simp+

theorem formatValue_MX_witness:
  "list_all2 (\<lambda>seg pe. priority_exchange_segment seg (fst pe) (snd pe))
       (split (CHR '','') ''10 mail1.example.com., 20 mail2.example.com'')
       [(10, ''mail1.example.com.''), (20, ''mail2.example.com'')] \<and>
   formatValue ''MX'' ''10 mail1.example.com., 20 mail2.example.com''
     = Inr (Arr [Obj [(''priority'', Num 10), (''exchange'', Str ''mail1.example.com.'')],
                 Obj [(''priority'', Num 20), (''exchange'', Str ''mail2.example.com.'')]])"
proof -
  have h: "list_all2 (\<lambda>seg pe. priority_exchange_segment seg (fst pe) (snd pe))
       (split (CHR '','') ''10 mail1.example.com., 20 mail2.example.com'')
       [(10, ''mail1.example.com.''), (20, ''mail2.example.com'')]"
    by (simp add: split_usage_example trim_usage_example priority_exchange_segment_def
          show_int_usage_example MAX_SAFE_INTEGER_def)
  show ?thesis
    using h formatValue_MX [OF h]
    by (simp add: spec_MX_record_def endsWith_dot_def)
qed

text \<open>
  Claim C8, as the specification words it for every raw value, fails. The code splits at
  the space character only: for a priority and an exchange separated by a tab, the
  specification's rule yields priority 10 and exchange \<^verbatim>\<open>mail.x.com.\<close>, and the code finds no
  second piece, raises a TypeError and stores nothing.
\<close>

theorem formatValue_MX_tab_counterexample:
  "formatValue ''MX'' (''10'' @ [CHR 0x09] @ ''mail.x.com'')
     \<noteq> Inr (spec_normalize_MX (''10'' @ [CHR 0x09] @ ''mail.x.com''))"
  by (simp add: formatValue_def formatMX_def trim_def is_whitespace_def Let_def)

lemma mergeRecord_object_stored:
  assumes "map_of kvs sub = Some (Obj es)"
  shows "mergeRecord (Obj kvs) sub recordType v =
       Inr (Obj (AList.update sub
              (Obj (if recordType = ''__proto__'' \<and> map_of es recordType = None then es
                    else AList.update recordType v es)) kvs))"
  using assms by (auto simp: mergeRecord_def get_prop_def)

lemma mergeRecord_object_inherited:
  assumes "map_of kvs sub = None" "sub \<in> set object_prototype_names"
  shows "mergeRecord (Obj kvs) sub recordType v = Inr (Obj kvs)"
  using assms by (simp add: mergeRecord_def get_prop_def)

lemma mergeRecord_object_new_label:
  assumes "map_of kvs sub = None" "sub \<notin> set object_prototype_names"
  shows "mergeRecord (Obj kvs) sub recordType v =
       Inr (Obj (AList.update sub
              (Obj (if recordType = ''__proto__'' then [] else [(recordType, v)])) kvs))"
proof -
  have p: "sub \<noteq> ''__proto__''" using assms(2) by (auto simp: object_prototype_names_def)
  have g: "get_prop (Obj kvs) sub = Inr Undefined"
    using assms by (simp add: get_prop_def)
  have g1: "get_prop (Obj (AList.update sub (Obj []) kvs)) sub = Inr (Obj [])"
    by (simp add: get_prop_def update_conv')
  show ?thesis
    using g p g1 by (simp add: mergeRecord_def)
qed

lemma stored_values_update:
  "stored_values (Obj (AList.update sub x kvs)) l t =
     (if l = sub then own_prop x t else stored_values (Obj kvs) l t)"
  by (simp add: stored_values_def update_conv')

lemma mergeRecord_object_frame:
  assumes "\<forall>x \<in> set kvs. \<exists>es. snd x = Obj es"
  shows "\<exists>dnsRecords'. mergeRecord (Obj kvs) sub recordType v = Inr dnsRecords' \<and>
     (\<forall>l t. (l, t) \<noteq> (sub, recordType) \<longrightarrow>
        stored_values dnsRecords' l t = stored_values (Obj kvs) l t)"
proof (cases "map_of kvs sub")
  case None
  show ?thesis
  proof (cases "sub \<in> set object_prototype_names")
    case True
    with None show ?thesis by (simp add: mergeRecord_object_inherited)
  next
    case False
    have "stored_values (Obj kvs) sub t = None" for t
      using None by (simp add: stored_values_def)
    with None False show ?thesis
      by (auto simp: mergeRecord_object_new_label stored_values_update)
  qed
next
  case (Some x)
  then have "(sub, x) \<in> set kvs" by (rule map_of_SomeD)
  with assms obtain es where x: "x = Obj es" by fastforce
  have "stored_values (Obj kvs) sub t = map_of es t" for t
    using Some x by (simp add: stored_values_def)
  then show ?thesis
    using Some x
    by (auto simp: mergeRecord_object_stored stored_values_update update_conv')
qed

lemma RecordSet_entries_objects:
  "\<forall>x \<in> set (map (\<lambda>(label, tr). (label, js_of_TypeRecords tr)) rs). \<exists>es. snd x = Obj es"
  by (auto simp: js_of_TypeRecords_def)

text \<open>
  An update of an existing record set, decoded to an object whose entries are objects,
  saves a record set in which every pair of a label and a type other than the pair written
  holds what it held before; so a type written earlier on the same label survives. The
  pair written holds the new normalised value when the label is stored already or is not
  the name of a property of \<^verbatim>\<open>Object.prototype\<close>.
\<close>

lemma updateDNSRecord_frame:
  assumes "stripe_list (''dns@'' @ domain) = Inr (c # cs)"
    and "parse (dns_records_or_empty c) = Inr (Obj kvs)"
    and "\<forall>x \<in> set kvs. \<exists>es. snd x = Obj es"
    and "formatValue recordType value = Inr v"
    and "sub = (if subdomain = ''@'' \<or> subdomain = [] then ''@'' else subdomain)"
  shows "\<exists>dnsRecords'.
     updateDNSRecord stripe_list stripe_create parse stringify
         domain subdomain recordType value
       = ([Update (cust_id c) [(''dns_domain'', Some domain),
                               (''dns_records'', stringify dnsRecords')]], None) \<and>
     (\<forall>l t. (l, t) \<noteq> (sub, recordType) \<longrightarrow>
        stored_values dnsRecords' l t = stored_values (Obj kvs) l t) \<and>
     ((map_of kvs sub \<noteq> None \<or> sub \<notin> set object_prototype_names) \<and> recordType \<noteq> ''__proto__'' \<longrightarrow>
        stored_values dnsRecords' sub recordType = Some v)"
proof -
  obtain d where m: "mergeRecord (Obj kvs) sub recordType v = Inr d"
    and frame: "\<forall>l t. (l, t) \<noteq> (sub, recordType) \<longrightarrow>
        stored_values d l t = stored_values (Obj kvs) l t"
    using mergeRecord_object_frame [OF assms(3), of sub recordType v] by blast
  have u: "updateDNSRecord stripe_list stripe_create parse stringify
         domain subdomain recordType value
       = ([Update (cust_id c) [(''dns_domain'', Some domain), (''dns_records'', stringify d)]], None)"
    using assms m by (auto simp: updateDNSRecord_def)
  have r: "stored_values d sub recordType = Some v"
    if "map_of kvs sub \<noteq> None \<or> sub \<notin> set object_prototype_names" "recordType \<noteq> ''__proto__''"
  proof (cases "map_of kvs sub")
    case None
    with that m show ?thesis
      by (auto simp: mergeRecord_object_new_label stored_values_def update_conv')
  next
    case (Some x)
    then have "(sub, x) \<in> set kvs" by (rule map_of_SomeD)
    with assms(3) obtain es where x: "x = Obj es" by fastforce
    from mergeRecord_object_stored [of kvs sub es recordType v] Some x m that(2) show ?thesis
      by (auto simp: stored_values_def update_conv')
  qed
  from u frame r show ?thesis by blast
qed

text \<open>The specification's example of two updates in a row, and an update of a label that
  is new, with the stored texts decoded and encoded by the codec.\<close>

lemma update_MX_keeps_A:
  \<open>updateDNSRecord
     (\<lambda>email. Inr [\<lparr> cust_id = ''cus_1'',
        metadata = [(''dns_records'', ''{"@":{"A":["1.2.3.4","5.6.7.8"]}}'')] \<rparr>])
     (\<lambda>email name. Inl StoreError) JSON_parse JSON_stringify
     ''example.com'' ''@'' ''MX'' ''10 mail.x.com.''
   = ([Update ''cus_1''
        [(''dns_domain'', Some ''example.com''),
         (''dns_records'',
          Some ''{"@":{"A":["1.2.3.4","5.6.7.8"],"MX":[{"priority":10,"exchange":"mail.x.com."}]}}'')]],
      None)\<close>
  by code_simp

lemma update_new_label:
  \<open>updateDNSRecord
     (\<lambda>email. Inr [\<lparr> cust_id = ''cus_1'',
        metadata = [(''dns_records'', ''{"www":{"A":["1.1.1.1"]}}'')] \<rparr>])
     (\<lambda>email name. Inl StoreError) JSON_parse JSON_stringify
     ''example.com'' ''mail'' ''A'' ''1.2.3.4''
   = ([Update ''cus_1''
        [(''dns_domain'', Some ''example.com''),
         (''dns_records'', Some ''{"www":{"A":["1.1.1.1"]},"mail":{"A":["1.2.3.4"]}}'')]],
      None)\<close>
  by code_simp

text \<open>
  Claim C6 at the label \<^verbatim>\<open>constructor\<close>, which the existing record set does not store:
  \<^verbatim>\<open>dnsRecords['constructor']\<close> is the function inherited from \<^verbatim>\<open>Object.prototype\<close>, a
  truthy value, so no entry is created for the label and the assignment of line 61 sets a
  property of that function. The text saved is the text that was stored: the pair written
  does not hold the new value.
\<close>

theorem update_inherited_label_stores_nothing:
  \<open>updateDNSRecord
     (\<lambda>email. Inr [\<lparr> cust_id = ''cus_1'',
        metadata = [(''dns_records'', ''{"www":{"A":["1.1.1.1"]}}'')] \<rparr>])
     (\<lambda>email name. Inl StoreError) JSON_parse JSON_stringify
     ''example.com'' ''constructor'' ''A'' ''1.2.3.4''
   = ([Update ''cus_1''
        [(''dns_domain'', Some ''example.com''),
         (''dns_records'', Some ''{"www":{"A":["1.1.1.1"]}}'')]],
      None)\<close>
  by code_simp

end
